theory Spec2Isabelle
  imports Complex_Main "HOL-Library.AList" "HOL-Library.Multiset" "HOL-Library.Sublist"
begin

section \<open>Errors and random sources\<close>

text \<open>
  The generator raises in two ways: numpy refuses an empty population or an empty
  integer range (\<open>ValueError\<close>), and pandas refuses a column or a label that is not
  there (\<open>KeyError\<close>).
\<close>

datatype error = ValueError | KeyError

text \<open>
  A random source is the infinite sequence of the raw numbers it will hand out; a draw
  takes the number at position 0 and leaves the rest. The script uses four independent
  sources: numpy's global generator, the module \<open>random\<close>, \<open>uuid.uuid4\<close>, and the
  \<open>RandomState(42)\<close> that \<open>DataFrame.sample\<close> builds for itself.
\<close>

type_synonym 'a stream = "nat \<Rightarrow> 'a"

record rng =
  np_random :: "nat stream"
  py_random :: "nat stream"
  uuid_src :: "nat stream"
  sample_src :: "nat stream"

type_synonym 'a rand = "rng \<Rightarrow> error + ('a \<times> rng)"

definition ret :: "'a \<Rightarrow> 'a rand" where
  "ret x g = Inr (x, g)"

definition raise :: "error \<Rightarrow> 'a rand" where
  "raise e g = Inl e"

definition bnd :: "'a rand \<Rightarrow> ('a \<Rightarrow> 'b rand) \<Rightarrow> 'b rand" where
  "bnd m f g = (case m g of Inl e \<Rightarrow> Inl e | Inr (x, g') \<Rightarrow> f x g')"

definition np_next :: "nat rand" where
  "np_next g = Inr (np_random g 0, g\<lparr>np_random := (\<lambda>i. np_random g (Suc i))\<rparr>)"

definition py_next :: "nat rand" where
  "py_next g = Inr (py_random g 0, g\<lparr>py_random := (\<lambda>i. py_random g (Suc i))\<rparr>)"

definition uuid_next :: "nat rand" where
  "uuid_next g = Inr (uuid_src g 0, g\<lparr>uuid_src := (\<lambda>i. uuid_src g (Suc i))\<rparr>)"

definition sample_next :: "nat rand" where
  "sample_next g = Inr (sample_src g 0, g\<lparr>sample_src := (\<lambda>i. sample_src g (Suc i))\<rparr>)"

text \<open>
  \<open>np.random.choice(a)\<close> and \<open>np.random.choice(a, p=w)\<close>: every weight list of the
  script is strictly positive, so each element of \<open>a\<close> can come out; the weights only
  shape the distribution. An empty \<open>a\<close> raises \<open>ValueError\<close> before anything is drawn.
\<close>

definition np_choice :: "'a list \<Rightarrow> 'a rand" where
  "np_choice a =
     (if a = [] then raise ValueError
      else bnd np_next (\<lambda>k. ret (a ! (k mod length a))))"

text \<open>\<open>np.random.randint(high)\<close>: an integer of \<open>[0, high)\<close>; \<open>ValueError\<close> when \<open>high \<le> 0\<close>.\<close>

definition np_randint :: "int \<Rightarrow> int rand" where
  "np_randint high =
     (if high \<le> 0 then raise ValueError
      else bnd np_next (\<lambda>k. ret (int k mod high)))"

text \<open>
  \<open>random.random()\<close> is a multiple of \<open>2^-53\<close> in \<open>[0, 1)\<close>;
  \<open>random.uniform(a, b)\<close> is \<open>a + (b - a) * random()\<close>;
  \<open>random.randint(a, b)\<close> is an integer of \<open>[a, b]\<close>. Amounts are kept as exact
  rationals.
\<close>

definition random_unit :: "rat rand" where
  "random_unit = bnd py_next (\<lambda>k. ret (of_int (int k mod 2 ^ 53) / 2 ^ 53))"

definition uniform :: "rat \<Rightarrow> rat \<Rightarrow> rat rand" where
  "uniform a b = bnd random_unit (\<lambda>u. ret (a + (b - a) * u))"

definition randint :: "int \<Rightarrow> int \<Rightarrow> int rand" where
  "randint a b =
     (if b < a then raise ValueError
      else bnd py_next (\<lambda>k. ret (a + int k mod (b - a + 1))))"

text \<open>
  \<open>str(uuid.uuid4()).replace('-', '')[:12].upper()\<close>: the first twelve hexadecimal
  digits of a version-4 UUID are its top 48 bits, all of them random; the source
  \<open>uuid_src\<close> hands out that 48-bit number.
\<close>

definition hex_digit :: "nat \<Rightarrow> char" where
  "hex_digit d = ''0123456789ABCDEF'' ! (d mod 16)"

fun hex_digits :: "nat \<Rightarrow> nat \<Rightarrow> string" where
  "hex_digits 0 k = []"
| "hex_digits (Suc n) k = hex_digits n (k div 16) @ [hex_digit k]"

definition uuid4_hex12 :: "string rand" where
  "uuid4_hex12 = bnd uuid_next (\<lambda>k. ret (hex_digits 12 k))"

section \<open>Dates\<close>

text \<open>
  A date is its proleptic Gregorian ordinal (day 1 is 0001-01-01, as
  \<open>date.toordinal\<close>), a \<open>datetime\<close> is the number of seconds since the midnight that
  begins day 0. \<open>ord2ymd\<close> follows \<open>datetime._ord2ymd\<close> of the standard library.
  The year limits of \<open>datetime\<close> and of pandas' \<open>Timestamp\<close> are not modelled.
\<close>

definition DAYS_IN_MONTH :: "int list" where
  "DAYS_IN_MONTH = [-1, 31, 28, 31, 30, 31, 30, 31, 31, 30, 31, 30, 31]"

definition DAYS_BEFORE_MONTH :: "int list" where
  "DAYS_BEFORE_MONTH = [-1, 0, 31, 59, 90, 120, 151, 181, 212, 243, 273, 304, 334]"

definition ord2ymd :: "int \<Rightarrow> int \<times> nat \<times> int" where
  "ord2ymd ordinal =
     (let n0 = ordinal - 1;
          n400 = n0 div 146097; na = n0 mod 146097;
          n100 = na div 36524; nb = na mod 36524;
          n4 = nb div 1461; nc = nb mod 1461;
          n1 = nc div 365; n = nc mod 365;
          year = n400 * 400 + 1 + n100 * 100 + n4 * 4 + n1
      in if n1 = 4 \<or> n100 = 4 then (year - 1, 12, 31)
         else
           let leapyear = (n1 = 3 \<and> (n4 \<noteq> 24 \<or> n100 = 3));
               month = nat ((n + 50) div 32);
               preceding = DAYS_BEFORE_MONTH ! month + (if month > 2 \<and> leapyear then 1 else 0)
           in if preceding > n
              then
                let month' = month - 1;
                    preceding' = preceding -
                      (DAYS_IN_MONTH ! month' + (if month' = 2 \<and> leapyear then 1 else 0))
                in (year, month', n - preceding' + 1)
              else (year, month, n - preceding + 1))"

definition seconds_per_day :: int where
  "seconds_per_day = 86400"

definition midnight :: "int \<Rightarrow> int" where
  "midnight d = d * seconds_per_day"

definition add_days :: "int \<Rightarrow> int \<Rightarrow> int" where
  "add_days t k = t + k * seconds_per_day"

definition month_of :: "int \<Rightarrow> nat" where
  "month_of t = fst (snd (ord2ymd (t div seconds_per_day)))"

definition day_of :: "int \<Rightarrow> int" where
  "day_of t = snd (snd (ord2ymd (t div seconds_per_day)))"

section \<open>The transaction record\<close>

datatype transaction_type =
  Subscription | Refund | One_Time_Purchase | Upgrade | Downgrade | Add_on

datatype subscription_plan = Free | Basic | Pro | Enterprise | Custom

datatype category =
  Revenue | Marketing_Cost | Operational_Expense | Infrastructure_Cost
  | Customer_Support | R_and_D | Administrative

datatype region = US | EU | APAC | LATAM | MEA

datatype payment_status = Completed | Pending | Failed | Refunded | Disputed

datatype customer_type = B2C | SMB | Mid_Market | Enterprise_Customer

record transaction =
  transaction_id :: string
  timestamp :: int
  customer_id :: string
  amount :: rat
  transaction_type :: transaction_type
  subscription_plan :: subscription_plan
  category :: category
  region :: region
  payment_status :: payment_status
  customer_type :: customer_type

definition plan_prices :: "subscription_plan \<Rightarrow> rat" where
  "plan_prices p =
     (case p of Free \<Rightarrow> 0 | Basic \<Rightarrow> 1999 / 100 | Pro \<Rightarrow> 4999 / 100
      | Enterprise \<Rightarrow> 19999 / 100 | Custom \<Rightarrow> 49999 / 100)"

definition regions :: "region list" where
  "regions = [US, EU, APAC, LATAM, MEA]"

definition payment_statuses :: "payment_status list" where
  "payment_statuses = [Completed, Pending, Failed, Refunded, Disputed]"

definition customer_types :: "customer_type list" where
  "customer_types = [B2C, SMB, Mid_Market, Enterprise_Customer]"

section \<open>Customers\<close>

text \<open>\<open>f'CUST_{str(i).zfill(6)}'\<close> for \<open>i\<close> in \<open>range(1, num_customers + 1)\<close>.\<close>

fun str_nat :: "nat \<Rightarrow> string" where
  "str_nat n =
     (if n < 10 then [''0123456789'' ! n]
      else str_nat (n div 10) @ [''0123456789'' ! (n mod 10)])"

definition zfill :: "nat \<Rightarrow> string \<Rightarrow> string" where
  "zfill w s = replicate (w - length s) CHR ''0'' @ s"

definition cust_id :: "nat \<Rightarrow> string" where
  "cust_id i = ''CUST_'' @ zfill 6 (str_nat i)"

text \<open>\<open>int(num_rows / 10)\<close> truncates towards zero.\<close>

definition num_customers_of :: "int \<Rightarrow> int" where
  "num_customers_of num_rows =
     (if 0 \<le> num_rows then num_rows div 10 else - ((- num_rows) div 10))"

definition customer_ids_of :: "int \<Rightarrow> string list" where
  "customer_ids_of num_rows = map cust_id [1 ..< nat (num_customers_of num_rows) + 1]"

text \<open>
  A dict is the list of its items in insertion order; storing under a key that is
  already there replaces the value in place (\<open>AList.update\<close>), a lookup of a missing
  key raises \<open>KeyError\<close>.
\<close>

definition lookup :: "('k \<times> 'v) list \<Rightarrow> 'k \<Rightarrow> 'v rand" where
  "lookup d k = (case map_of d k of None \<Rightarrow> raise KeyError | Some v \<Rightarrow> ret v)"

fun build_type_map ::
  "(string \<times> customer_type) list \<Rightarrow> string list \<Rightarrow> (string \<times> customer_type) list rand"
where
  "build_type_map d [] g = Inr (d, g)"
| "build_type_map d (cid # cids) g =
     (case np_choice customer_types g of
        Inl e \<Rightarrow> Inl e
      | Inr (ctype, g') \<Rightarrow> build_type_map (AList.update cid ctype d) cids g')"

definition assign_plan :: "customer_type \<Rightarrow> subscription_plan rand" where
  "assign_plan ctype =
     (if ctype = B2C then np_choice [Free, Basic, Pro]
      else if ctype = SMB then np_choice [Basic, Pro]
      else if ctype = Mid_Market then np_choice [Pro, Enterprise]
      else np_choice [Enterprise, Custom])"

fun build_plan_map ::
  "(string \<times> subscription_plan) list \<Rightarrow> (string \<times> customer_type) list
     \<Rightarrow> (string \<times> subscription_plan) list rand"
where
  "build_plan_map d [] g = Inr (d, g)"
| "build_plan_map d ((cid, ctype) # items) g =
     (case assign_plan ctype g of
        Inl e \<Rightarrow> Inl e
      | Inr (plan, g') \<Rightarrow> build_plan_map (AList.update cid plan d) items g')"

section \<open>Timestamps\<close>

text \<open>
  \<open>num_rows\<close> days are drawn in \<open>[start_date, end_date)\<close> and sorted; each then gets an
  hour of 8..20, a minute and a second.
\<close>

fun draw_dates :: "int \<Rightarrow> int \<Rightarrow> nat \<Rightarrow> int list rand" where
  "draw_dates start_date date_range 0 g = Inr ([], g)"
| "draw_dates start_date date_range (Suc k) g =
     (case np_randint date_range g of
        Inl e \<Rightarrow> Inl e
      | Inr (d, g') \<Rightarrow>
          (case draw_dates start_date date_range k g' of
             Inl e \<Rightarrow> Inl e
           | Inr (ds, g'') \<Rightarrow> Inr ((start_date + d) # ds, g'')))"

definition add_time :: "int \<Rightarrow> int rand" where
  "add_time date =
     bnd (randint 8 20) (\<lambda>hours.
     bnd (randint 0 59) (\<lambda>minutes.
     bnd (randint 0 59) (\<lambda>seconds.
     ret (midnight date + hours * 3600 + minutes * 60 + seconds))))"

fun add_times :: "int list \<Rightarrow> int list rand" where
  "add_times [] g = Inr ([], g)"
| "add_times (date # dates) g =
     (case add_time date g of
        Inl e \<Rightarrow> Inl e
      | Inr (t, g') \<Rightarrow>
          (case add_times dates g' of
             Inl e \<Rightarrow> Inl e
           | Inr (ts, g'') \<Rightarrow> Inr (t # ts, g'')))"

section \<open>One row\<close>

text \<open>
  Lines 84 to 155 of the generator, for row \<open>i\<close> with timestamp \<open>t\<close>. The short-circuit
  \<open>i > 0 and random.random() < 0.1\<close> draws nothing for the first row.
\<close>

definition pick_tx_type :: "nat \<Rightarrow> transaction_type rand" where
  "pick_tx_type i =
     (if i > 0
      then bnd random_unit (\<lambda>u.
             if u < 1 / 10
             then np_choice [Refund, One_Time_Purchase, Upgrade, Downgrade, Add_on]
             else ret Subscription)
      else ret Subscription)"

definition pick_category :: "transaction_type \<Rightarrow> category rand" where
  "pick_category tx_type =
     (if tx_type \<in> set [Subscription, One_Time_Purchase, Upgrade, Add_on] then ret Revenue
      else if tx_type = Refund then ret Revenue
      else np_choice [Marketing_Cost, Operational_Expense, Infrastructure_Cost,
                      Customer_Support, R_and_D, Administrative])"

definition base_amount :: "category \<Rightarrow> transaction_type \<Rightarrow> rat \<Rightarrow> rat rand" where
  "base_amount cat tx_type base_price =
     (if cat = Revenue
      then
        (if tx_type = Subscription then ret base_price
         else if tx_type = Upgrade then uniform 10 100
         else if tx_type = Add_on then uniform 5 50
         else if tx_type = One_Time_Purchase then uniform 20 500
         else if tx_type = Refund
           then bnd (uniform (1 / 10) 1) (\<lambda>u. ret (- base_price * u))
         else bnd (uniform 10 100) (\<lambda>u. ret (- u)))
      else
        (if cat = Marketing_Cost then bnd (uniform 10 5000) (\<lambda>u. ret (- u))
         else if cat = Infrastructure_Cost then bnd (uniform 50 2000) (\<lambda>u. ret (- u))
         else bnd (uniform 20 1000) (\<lambda>u. ret (- u))))"

definition seasonality :: "int \<Rightarrow> transaction_type \<Rightarrow> rat \<Rightarrow> rat rand" where
  "seasonality t tx_type amt =
     bnd (if day_of t \<ge> 25 \<and> tx_type = Subscription
          then bnd (uniform 1 (12 / 10)) (\<lambda>m. ret (amt * m))
          else ret amt) (\<lambda>amt1.
     if month_of t = 12
     then bnd (uniform (11 / 10) (13 / 10)) (\<lambda>m. ret (amt1 * m))
     else ret amt1)"

text \<open>\<open>round(amount, 2)\<close>: to the nearest hundredth, a tie to the even one.\<close>

definition round_half_even :: "rat \<Rightarrow> int" where
  "round_half_even x =
     (let q = \<lfloor>x\<rfloor>; r = x - of_int q
      in if r < 1 / 2 then q
         else if r > 1 / 2 then q + 1
         else if even q then q else q + 1)"

definition round2 :: "rat \<Rightarrow> rat" where
  "round2 x = of_int (round_half_even (x * 100)) / 100"

definition tx_prefix :: "category \<Rightarrow> string" where
  "tx_prefix cat = (if cat = Revenue then ''REV_'' else ''EXP_'')"

definition gen_row ::
  "string list \<Rightarrow> (string \<times> customer_type) list \<Rightarrow> (string \<times> subscription_plan) list
     \<Rightarrow> nat \<Rightarrow> int \<Rightarrow> transaction rand"
where
  "gen_row customer_ids customer_type_map customer_plan_map i t =
     bnd (np_choice customer_ids) (\<lambda>cid.
     bnd (lookup customer_type_map cid) (\<lambda>ctype.
     bnd (lookup customer_plan_map cid) (\<lambda>customer_plan.
     bnd (pick_tx_type i) (\<lambda>tx_type.
     bnd (pick_category tx_type) (\<lambda>cat.
     bnd (base_amount cat tx_type (plan_prices customer_plan)) (\<lambda>amt.
     bnd (np_choice regions) (\<lambda>reg.
     bnd (np_choice payment_statuses) (\<lambda>status.
     bnd (seasonality t tx_type amt) (\<lambda>amt'.
     bnd uuid4_hex12 (\<lambda>hex.
     ret \<lparr>transaction_id = tx_prefix cat @ hex,
          timestamp = t,
          customer_id = cid,
          amount = round2 amt',
          transaction_type = tx_type,
          subscription_plan = customer_plan,
          category = cat,
          region = reg,
          payment_status = status,
          customer_type = ctype\<rparr>))))))))))"

fun gen_rows ::
  "string list \<Rightarrow> (string \<times> customer_type) list \<Rightarrow> (string \<times> subscription_plan) list
     \<Rightarrow> nat \<Rightarrow> int list \<Rightarrow> transaction list rand"
where
  "gen_rows cids tm pm i [] g = Inr ([], g)"
| "gen_rows cids tm pm i (t # ts) g =
     (case gen_row cids tm pm i t g of
        Inl e \<Rightarrow> Inl e
      | Inr (row, g') \<Rightarrow>
          (case gen_rows cids tm pm (Suc i) ts g' of
             Inl e \<Rightarrow> Inl e
           | Inr (rows, g'') \<Rightarrow> Inr (row # rows, g'')))"

section \<open>Retries, sorting and downsampling\<close>

definition failed_indices :: "transaction list \<Rightarrow> nat list" where
  "failed_indices df = filter (\<lambda>idx. payment_status (df ! idx) = Failed) [0 ..< length df]"

definition retry_of :: "transaction \<Rightarrow> int \<Rightarrow> transaction" where
  "retry_of failed_row retry_date =
     failed_row\<lparr>timestamp := retry_date,
                payment_status := Completed,
                transaction_id := ''RETRY_'' @ drop 4 (transaction_id failed_row)\<rparr>"

text \<open>
  The loop over \<open>failed_indices\<close>: the index was computed before the loop, the frame
  grows at its end while the loop runs. \<open>df.loc[idx]\<close> raises \<open>KeyError\<close> for a label
  that is not in the frame.
\<close>

fun retry_pass :: "int \<Rightarrow> nat list \<Rightarrow> transaction list \<Rightarrow> transaction list rand" where
  "retry_pass end_date [] df g = Inr (df, g)"
| "retry_pass end_date (idx # idxs) df g =
     (case random_unit g of
        Inl e \<Rightarrow> Inl e
      | Inr (u, g1) \<Rightarrow>
          if u < 7 / 10
          then
            (if idx < length df
             then
               (case randint 1 7 g1 of
                  Inl e \<Rightarrow> Inl e
                | Inr (d, g2) \<Rightarrow>
                    let failed_row = df ! idx;
                        retry_date = add_days (timestamp failed_row) d
                    in if retry_date \<le> midnight end_date
                       then retry_pass end_date idxs (df @ [retry_of failed_row retry_date]) g2
                       else retry_pass end_date idxs df g2)
             else Inl KeyError)
          else retry_pass end_date idxs df g1)"

text \<open>
  \<open>df.sample(n, random_state=42)\<close> takes \<open>n\<close> rows without replacement, in the order
  its own generator picks them; asking for more rows than there are raises
  \<open>ValueError\<close>.
\<close>

fun sample :: "nat \<Rightarrow> 'a list \<Rightarrow> 'a list rand" where
  "sample 0 xs g = Inr ([], g)"
| "sample (Suc n) xs g =
     (if xs = [] then Inl ValueError
      else
        (case sample_next g of
           Inl e \<Rightarrow> Inl e
         | Inr (k, g') \<Rightarrow>
             let i = k mod length xs
             in (case sample n (take i xs @ drop (Suc i) xs) g' of
                   Inl e \<Rightarrow> Inl e
                 | Inr (ys, g'') \<Rightarrow> Inr (xs ! i # ys, g''))))"

text \<open>
  \<open>df.sort_values('timestamp')\<close>. Rows with equal timestamps keep their order here;
  pandas' default sort does not promise that, and no property below depends on it.
\<close>

definition sort_values :: "transaction list \<Rightarrow> transaction list" where
  "sort_values df = sort_key timestamp df"

section \<open>The generator\<close>

text \<open>
  \<open>generate_synthetic_saas_data\<close>, with the two dates already parsed. A frame built
  from no rows has no columns, so selecting \<open>payment_status\<close> raises \<open>KeyError\<close>.
\<close>

definition generate_synthetic_saas_data :: "int \<Rightarrow> int \<Rightarrow> int \<Rightarrow> transaction list rand" where
  "generate_synthetic_saas_data num_rows start_date end_date =
     (let customer_ids = customer_ids_of num_rows
      in bnd (build_type_map [] customer_ids) (\<lambda>customer_type_map.
         bnd (build_plan_map [] customer_type_map) (\<lambda>customer_plan_map.
         bnd (draw_dates start_date (end_date - start_date) (nat num_rows)) (\<lambda>dates.
         bnd (add_times (sort dates)) (\<lambda>timestamps.
         bnd (gen_rows customer_ids customer_type_map customer_plan_map 0 timestamps) (\<lambda>data.
         if data = [] then raise KeyError
         else
           bnd (retry_pass end_date (failed_indices data) data) (\<lambda>df.
           let df' = sort_values df
           in if int (length df') > num_rows
              then bnd (sample (nat num_rows) df') (\<lambda>s. ret (sort_values s))
              else ret df')))))))"

section \<open>The loader\<close>

text \<open>
  \<open>load_data_to_bigquery\<close> talks to the file system, pandas and the BigQuery client.
  The environment says, for each of these calls, whether it raises when it is reached.
  An exception is one of five kinds: \<open>NotFound\<close>, the \<open>GoogleCloudError\<close> with which
  \<open>get_dataset\<close> reports a missing dataset; \<open>GoogleCloudError\<close>, any other instance of
  that class; \<open>OtherException\<close>, any other instance of \<open>Exception\<close>; and
  \<open>KeyboardInterrupt\<close> and \<open>SystemExit\<close>, which derive from \<open>BaseException\<close> only and
  which no handler of the function catches. A run is the list of the calls that were
  made, in order, and what the caller gets: a returned boolean or a propagated
  exception.
\<close>

datatype exn = NotFound | GoogleCloudError | OtherException | KeyboardInterrupt | SystemExit

definition is_GoogleCloudError :: "exn \<Rightarrow> bool" where
  "is_GoogleCloudError e =
     (case e of NotFound \<Rightarrow> True | GoogleCloudError \<Rightarrow> True | _ \<Rightarrow> False)"

definition is_Exception :: "exn \<Rightarrow> bool" where
  "is_Exception e =
     (case e of KeyboardInterrupt \<Rightarrow> False | SystemExit \<Rightarrow> False | _ \<Rightarrow> True)"

datatype step =
  ReadCsv | ToDatetime | ClientFromServiceAccountJson | GetDataset | NewDataset
  | CreateDataset | LoadTableFromDataframe | JobResult | GetTable

text \<open>
  \<open>new_dataset\<close> is the constructor call \<open>bigquery.Dataset(f"{project_id}.{dataset_id}")\<close>
  of line 99, which rejects a malformed id. The schema fields and the job configuration
  are built from constants.
\<close>

record environment =
  file_exists :: bool
  read_csv :: "exn option"
  columns :: "string list"
  to_datetime :: "exn option"
  from_service_account_json :: "exn option"
  get_dataset :: "exn option"
  new_dataset :: "exn option"
  create_dataset :: "exn option"
  load_table_from_dataframe :: "exn option"
  job_result :: "exn option"
  get_table :: "exn option"

type_synonym run = "step list \<times> (exn + bool)"

definition call :: "step \<Rightarrow> exn option \<Rightarrow> run \<Rightarrow> run" where
  "call s outcome rest =
     (case outcome of
        Some e \<Rightarrow> ([s], Inl e)
      | None \<Rightarrow> (s # fst rest, snd rest))"

text \<open>
  The body of the \<open>try\<close> block, lines 43 to 131. The inner handler of line 97 is
  \<open>except Exception\<close>: it answers such an exception of \<open>get_dataset\<close> by building and
  creating the dataset, and lets any other exception pass. What the handler's own
  calls raise leaves the inner \<open>try\<close> as well.
\<close>

definition load_body :: "environment \<Rightarrow> run" where
  "load_body env =
     (if \<not> file_exists env then ([], Inr False)
      else
        call ReadCsv (read_csv env)
          ((if ''timestamp'' \<in> set (columns env) then call ToDatetime (to_datetime env) else id)
            (call ClientFromServiceAccountJson (from_service_account_json env)
              (let rest =
                     call LoadTableFromDataframe (load_table_from_dataframe env)
                       (call JobResult (job_result env)
                         (call GetTable (get_table env) ([], Inr True)))
               in case get_dataset env of
                    None \<Rightarrow> (GetDataset # fst rest, snd rest)
                  | Some e \<Rightarrow>
                      if is_Exception e
                      then
                        (let r = call NewDataset (new_dataset env)
                                   (call CreateDataset (create_dataset env) rest)
                         in (GetDataset # fst r, snd r))
                      else ([GetDataset], Inl e)))))"

text \<open>
  The two outer handlers, \<open>except GoogleCloudError\<close> and \<open>except Exception\<close>, in this
  order: each logs and returns \<open>False\<close>. An exception that is neither propagates to
  the caller.
\<close>

definition handlers :: "exn + bool \<Rightarrow> exn + bool" where
  "handlers r =
     (case r of
        Inl e \<Rightarrow>
          if is_GoogleCloudError e then Inr False
          else if is_Exception e then Inr False
          else Inl e
      | Inr b \<Rightarrow> Inr b)"

definition load_data_to_bigquery :: "environment \<Rightarrow> run" where
  "load_data_to_bigquery env = (fst (load_body env), handlers (snd (load_body env)))"

text \<open>
  The error model of the function: whatever a call raises is an instance of
  \<open>Exception\<close>.
\<close>

definition caught :: "exn option \<Rightarrow> bool" where
  "caught outcome = (case outcome of None \<Rightarrow> True | Some e \<Rightarrow> is_Exception e)"

definition within_error_model :: "environment \<Rightarrow> bool" where
  "within_error_model env =
     list_all caught
       [read_csv env, to_datetime env, from_service_account_json env, get_dataset env,
        new_dataset env, create_dataset env, load_table_from_dataframe env,
        job_result env, get_table env]"

definition all_fine :: environment where
  "all_fine =
     \<lparr>file_exists = True, read_csv = None,
      columns = [''transaction_id'', ''timestamp'', ''customer_id'', ''amount''],
      to_datetime = None, from_service_account_json = None, get_dataset = None,
      new_dataset = None, create_dataset = None, load_table_from_dataframe = None,
      job_result = None, get_table = None\<rparr>"

section \<open>Example inputs\<close>

text \<open>
  The default date range of the generator, \<open>'2023-01-01'\<close> to \<open>'2025-05-20'\<close>, as
  ordinals; random sources whose numpy, \<open>random\<close>, UUID and sampling streams are each
  constant (\<open>const_rng\<close>), and one whose UUID stream counts up; and the rows that
  the generator builds from them.
\<close>

definition const_rng :: "nat \<Rightarrow> nat \<Rightarrow> nat \<Rightarrow> nat \<Rightarrow> rng" where
  "const_rng a b c d =
     \<lparr>np_random = (\<lambda>_. a), py_random = (\<lambda>_. b), uuid_src = (\<lambda>_. c), sample_src = (\<lambda>_. d)\<rparr>"

definition default_start_date :: int where
  "default_start_date = 738521"

definition default_end_date :: int where
  "default_end_date = 739391"

definition free_subscription_row :: transaction where
  "free_subscription_row =
     \<lparr>transaction_id = ''REV_000000000000'', timestamp = 63808243200,
      customer_id = ''CUST_000001'', amount = 0, transaction_type = Subscription,
      subscription_plan = Free, category = Revenue, region = US,
      payment_status = Completed, customer_type = B2C\<rparr>"

definition free_refund_row :: transaction where
  "free_refund_row = free_subscription_row\<lparr>transaction_type := Refund\<rparr>"

definition failed_subscription_row :: transaction where
  "failed_subscription_row =
     \<lparr>transaction_id = ''REV_000000000000'', timestamp = 63808416000,
      customer_id = ''CUST_000001'', amount = 4999 / 100, transaction_type = Subscription,
      subscription_plan = Pro, category = Revenue, region = APAC,
      payment_status = Failed, customer_type = Mid_Market\<rparr>"

definition failed_upgrade_row :: transaction where
  "failed_upgrade_row = failed_subscription_row\<lparr>amount := 10, transaction_type := Upgrade\<rparr>"

definition downgrade_subscription_row :: transaction where
  "downgrade_subscription_row =
     \<lparr>transaction_id = ''REV_000000000000'', timestamp = 63808502400,
      customer_id = ''CUST_000001'', amount = 49999 / 100, transaction_type = Subscription,
      subscription_plan = Custom, category = Revenue, region = LATAM,
      payment_status = Refunded, customer_type = Enterprise_Customer\<rparr>"

definition downgrade_row :: transaction where
  "downgrade_row =
     downgrade_subscription_row\<lparr>transaction_id := ''EXP_000000000000'', amount := - 20,
       transaction_type := Downgrade, category := Customer_Support\<rparr>"

definition counting_uuid_rng :: rng where
  "counting_uuid_rng =
     \<lparr>np_random = (\<lambda>_. 2), py_random = (\<lambda>_. 0), uuid_src = (\<lambda>j. j), sample_src = (\<lambda>_. 5)\<rparr>"

section \<open>Properties of the loader\<close>

lemma load_body_missing_file: "\<not> file_exists env \<Longrightarrow> load_body env = ([], Inr False)"
  by (simp add: load_body_def)

text \<open>
  C7. When the CSV path does not exist, \<open>load_data_to_bigquery\<close> returns \<open>False\<close> to its
  caller, raises nothing, and has called neither pandas nor BigQuery.
\<close>

theorem load_missing_file_returns_False:
  "\<not> file_exists env \<Longrightarrow> load_data_to_bigquery env = ([], Inr False)"
  by (simp add: load_data_to_bigquery_def load_body_missing_file handlers_def)

theorem load_missing_file_returns_False_witness:
  "\<not> file_exists (all_fine\<lparr>file_exists := False\<rparr>)
   \<and> load_data_to_bigquery (all_fine\<lparr>file_exists := False\<rparr>) = ([], Inr False)"
proof -
  have h: "\<not> file_exists (all_fine\<lparr>file_exists := False\<rparr>)"
    by simp
  show ?thesis
    using h load_missing_file_returns_False [OF h] by simp
qed

lemma load_body_trace_distinct: "distinct (fst (load_body env))"
  by (simp add: load_body_def call_def Let_def split: option.splits)

lemma handlers_Inr: "handlers (Inr b) = Inr b"
  by (simp add: handlers_def)

lemma handlers_call:
  "caught outcome \<Longrightarrow>
     handlers (snd (call s outcome rest))
       = (if outcome = None then handlers (snd rest) else Inr False)"
  by (cases outcome) (simp_all add: call_def caught_def handlers_def)

text \<open>
  An exception that derives from \<open>BaseException\<close> only is not caught: here the wait
  for the load job is interrupted from the keyboard.
\<close>

lemma load_propagates_keyboard_interrupt:
  "load_data_to_bigquery (all_fine\<lparr>job_result := Some KeyboardInterrupt\<rparr>)
     = ([ReadCsv, ToDatetime, ClientFromServiceAccountJson, GetDataset,
         LoadTableFromDataframe, JobResult], Inl KeyboardInterrupt)"
  by (simp add: load_data_to_bigquery_def load_body_def call_def all_fine_def
      handlers_def is_GoogleCloudError_def is_Exception_def)

text \<open>
  C8, as the code is designed. Within the error model (every exception raised is an
  instance of \<open>Exception\<close>), and when the dataset check either finds the dataset or
  reports it missing (\<open>NotFound\<close>), the caller gets a boolean, never an exception, and
  no call is made twice. The boolean is \<open>True\<close> exactly when the file exists and
  reading it, converting the timestamp column (when there is one), building the
  client, starting the load job, waiting for it and fetching the table all complete,
  and a missing dataset is built and created; an exception of any of these calls gives
  \<open>False\<close>. Nothing is said here about a dataset check that fails in another way.
\<close>

theorem load_returns_boolean:
  assumes "within_error_model env"
    and "get_dataset env = None \<or> get_dataset env = Some NotFound"
  shows "snd (load_data_to_bigquery env) =
     Inr (file_exists env \<and> read_csv env = None
          \<and> (''timestamp'' \<in> set (columns env) \<longrightarrow> to_datetime env = None)
          \<and> from_service_account_json env = None
          \<and> (get_dataset env = Some NotFound
               \<longrightarrow> new_dataset env = None \<and> create_dataset env = None)
          \<and> load_table_from_dataframe env = None
          \<and> job_result env = None
          \<and> get_table env = None)
   \<and> distinct (fst (load_data_to_bigquery env))"
proof -
  from assms(1) have c: "caught (read_csv env)" "caught (to_datetime env)"
    "caught (from_service_account_json env)" "caught (new_dataset env)"
    "caught (create_dataset env)" "caught (load_table_from_dataframe env)"
    "caught (job_result env)" "caught (get_table env)"
    by (simp_all add: within_error_model_def)
  let ?rest = "call LoadTableFromDataframe (load_table_from_dataframe env)
                 (call JobResult (job_result env)
                   (call GetTable (get_table env) ([], Inr True)))"
  let ?dataset = "case get_dataset env of
                    None \<Rightarrow> (GetDataset # fst ?rest, snd ?rest)
                  | Some e \<Rightarrow>
                      if is_Exception e
                      then
                        (let r = call NewDataset (new_dataset env)
                                   (call CreateDataset (create_dataset env) ?rest)
                         in (GetDataset # fst r, snd r))
                      else ([GetDataset], Inl e)"
  have rest: "handlers (snd ?rest)
      = Inr (load_table_from_dataframe env = None \<and> job_result env = None
             \<and> get_table env = None)"
    by (simp add: handlers_call c handlers_Inr)
  have dataset: "handlers (snd ?dataset)
      = Inr ((get_dataset env = Some NotFound
               \<longrightarrow> new_dataset env = None \<and> create_dataset env = None)
             \<and> load_table_from_dataframe env = None \<and> job_result env = None
             \<and> get_table env = None)"
  proof (cases "get_dataset env")
    case None
    then show ?thesis by (simp add: rest)
  next
    case (Some e)
    with assms(2) have e: "get_dataset env = Some NotFound" by simp
    show ?thesis
      by (simp add: e is_Exception_def Let_def handlers_call c rest)
  qed
  have client: "handlers (snd (call ClientFromServiceAccountJson
        (from_service_account_json env) ?dataset))
      = Inr (from_service_account_json env = None
             \<and> (get_dataset env = Some NotFound
               \<longrightarrow> new_dataset env = None \<and> create_dataset env = None)
             \<and> load_table_from_dataframe env = None \<and> job_result env = None
             \<and> get_table env = None)"
    by (simp only: handlers_call [OF c(3)] dataset) simp
  have body: "handlers (snd (load_body env)) =
     Inr (file_exists env \<and> read_csv env = None
          \<and> (''timestamp'' \<in> set (columns env) \<longrightarrow> to_datetime env = None)
          \<and> from_service_account_json env = None
          \<and> (get_dataset env = Some NotFound
               \<longrightarrow> new_dataset env = None \<and> create_dataset env = None)
          \<and> load_table_from_dataframe env = None
          \<and> job_result env = None
          \<and> get_table env = None)"
  proof (cases "file_exists env")
    case False
    then show ?thesis by (simp add: load_body_def handlers_Inr)
  next
    case True
    show ?thesis
    proof (cases "''timestamp'' \<in> set (columns env)")
      case ts: True
      have "handlers (snd (load_body env))
          = handlers (snd (call ReadCsv (read_csv env)
              (call ToDatetime (to_datetime env)
                (call ClientFromServiceAccountJson (from_service_account_json env) ?dataset))))"
        using True ts by (simp only: load_body_def Let_def not_True_eq_False if_False if_True)
      also have "\<dots> = (if read_csv env = None
          then (if to_datetime env = None
                then handlers (snd (call ClientFromServiceAccountJson
                       (from_service_account_json env) ?dataset))
                else Inr False)
          else Inr False)"
        by (simp only: handlers_call [OF c(1)] handlers_call [OF c(2)])
      finally show ?thesis
        using True ts by (simp add: client)
    next
      case ts: False
      have "handlers (snd (load_body env))
          = handlers (snd (call ReadCsv (read_csv env)
                (call ClientFromServiceAccountJson (from_service_account_json env) ?dataset)))"
        using True ts
        by (simp only: load_body_def Let_def not_True_eq_False if_False if_True id_apply)
      also have "\<dots> = (if read_csv env = None
          then handlers (snd (call ClientFromServiceAccountJson
                       (from_service_account_json env) ?dataset))
          else Inr False)"
        by (simp only: handlers_call [OF c(1)])
      finally show ?thesis
        using True ts by (simp add: client)
    qed
  qed
  then show ?thesis
    by (simp add: load_data_to_bigquery_def load_body_trace_distinct)
qed

theorem load_returns_boolean_witness:
  "within_error_model (all_fine\<lparr>get_dataset := Some NotFound\<rparr>)
   \<and> snd (load_data_to_bigquery (all_fine\<lparr>get_dataset := Some NotFound\<rparr>)) = Inr True
   \<and> within_error_model (all_fine\<lparr>job_result := Some GoogleCloudError\<rparr>)
   \<and> snd (load_data_to_bigquery (all_fine\<lparr>job_result := Some GoogleCloudError\<rparr>)) = Inr False
   \<and> distinct (fst (load_data_to_bigquery (all_fine\<lparr>get_dataset := Some NotFound\<rparr>)))"
proof -
  have m1: "within_error_model (all_fine\<lparr>get_dataset := Some NotFound\<rparr>)"
    and m2: "within_error_model (all_fine\<lparr>job_result := Some GoogleCloudError\<rparr>)"
    by (simp_all add: within_error_model_def caught_def all_fine_def is_Exception_def)
  have d1: "get_dataset (all_fine\<lparr>get_dataset := Some NotFound\<rparr>) = None
      \<or> get_dataset (all_fine\<lparr>get_dataset := Some NotFound\<rparr>) = Some NotFound"
    and d2: "get_dataset (all_fine\<lparr>job_result := Some GoogleCloudError\<rparr>) = None
      \<or> get_dataset (all_fine\<lparr>job_result := Some GoogleCloudError\<rparr>) = Some NotFound"
    by (simp_all add: all_fine_def)
  from load_returns_boolean [OF m1 d1] load_returns_boolean [OF m2 d2] m1 m2
  show ?thesis
    by (simp add: all_fine_def)
qed

text \<open>
  C8 as stated fails at the dataset check: \<open>get_dataset\<close> raises \<open>NotFound\<close>, an
  instance of \<open>Exception\<close>, the dataset is created, every other call succeeds, and the
  function returns \<open>True\<close>.
\<close>

theorem load_dataset_check_exception_counterexample:
  "get_dataset (all_fine\<lparr>get_dataset := Some NotFound\<rparr>) = Some NotFound
   \<and> is_Exception NotFound
   \<and> load_data_to_bigquery (all_fine\<lparr>get_dataset := Some NotFound\<rparr>)
       = ([ReadCsv, ToDatetime, ClientFromServiceAccountJson, GetDataset, NewDataset,
           CreateDataset, LoadTableFromDataframe, JobResult, GetTable], Inr True)"
  by (simp add: load_data_to_bigquery_def load_body_def call_def all_fine_def
      handlers_def is_Exception_def)

section \<open>Properties of the generator\<close>

lemma bnd_Inr: "bnd m f g = Inr r \<longleftrightarrow> (\<exists>x g'. m g = Inr (x, g') \<and> f x g' = Inr r)"
  by (auto simp: bnd_def split: sum.splits)

lemma ret_Inr: "ret x g = Inr r \<longleftrightarrow> r = (x, g)"
  by (auto simp: ret_def)

lemma raise_Inr: "raise e g = Inr r \<longleftrightarrow> False"
  by (simp add: raise_def)

lemmas rand_simps = bnd_Inr ret_Inr raise_Inr

lemma np_choice_mem: "np_choice a g = Inr (x, g') \<Longrightarrow> x \<in> set a"
  by (auto simp: np_choice_def np_next_def rand_simps split: if_splits)

lemma np_randint_range: "np_randint high g = Inr (d, g') \<Longrightarrow> 0 \<le> d \<and> d < high"
  by (auto simp: np_randint_def np_next_def rand_simps split: if_splits)

lemma random_unit_range: "random_unit g = Inr (u, g') \<Longrightarrow> 0 \<le> u \<and> u < 1"
  by (auto simp: random_unit_def py_next_def rand_simps)

lemma uniform_range:
  assumes "uniform a b g = Inr (x, g')" "a \<le> b"
  shows "a \<le> x \<and> x \<le> b"
proof -
  from assms(1) obtain u g1 where u: "random_unit g = Inr (u, g1)" and x: "x = a + (b - a) * u"
    by (auto simp: uniform_def rand_simps)
  from random_unit_range [OF u] have "0 \<le> u" "u < 1" by auto
  moreover have "0 \<le> b - a" using assms(2) by simp
  ultimately have "0 \<le> (b - a) * u" and "(b - a) * u \<le> (b - a) * 1"
    by (simp_all add: mult_left_mono del: mult_1_right)
  then show ?thesis using x by simp
qed

lemma randint_range:
  assumes "randint a b g = Inr (d, g')"
  shows "a \<le> d \<and> d \<le> b"
proof -
  from assms obtain k where ab: "a \<le> b" and d: "d = a + int k mod (b - a + 1)"
    by (auto simp: randint_def py_next_def rand_simps split: if_splits)
  from ab have pos: "0 < b - a + 1" by simp
  from pos have "0 \<le> int k mod (b - a + 1)" by (rule pos_mod_sign)
  moreover from pos have "int k mod (b - a + 1) < b - a + 1" by (rule pos_mod_bound)
  ultimately show ?thesis using d by linarith
qed

lemma length_draw_dates: "draw_dates s r k g = Inr (ds, g') \<Longrightarrow> length ds = k"
  by (induction k arbitrary: g ds) (auto split: sum.splits)

lemma length_add_times: "add_times ds g = Inr (ts, g') \<Longrightarrow> length ts = length ds"
  by (induction ds arbitrary: g ts) (auto split: sum.splits)

lemma length_gen_rows: "gen_rows cids tm pm i ts g = Inr (rows, g') \<Longrightarrow> length rows = length ts"
  by (induction ts arbitrary: i g rows) (auto split: sum.splits)


lemma sample_mset: "sample n xs g = Inr (ys, g') \<Longrightarrow> mset ys \<subseteq># mset xs \<and> length ys = n"
proof (induction n arbitrary: xs g ys)
  case 0
  then show ?case by simp
next
  case (Suc n)
  from Suc.prems obtain k g1 zs where ne: "xs \<noteq> []"
    and rec: "sample n (take (k mod length xs) xs @ drop (Suc (k mod length xs)) xs) g1 = Inr (zs, g')"
    and ys: "ys = xs ! (k mod length xs) # zs"
    by (auto simp: Let_def split: if_splits sum.splits)
  let ?i = "k mod length xs"
  have i: "?i < length xs" using ne by simp
  have xs: "xs = take ?i xs @ xs ! ?i # drop (Suc ?i) xs"
    using i by (simp add: id_take_nth_drop)
  have "mset xs = mset (take ?i xs @ drop (Suc ?i) xs) + {#xs ! ?i#}"
    by (subst xs) simp
  moreover from Suc.IH [OF rec] have "mset zs \<subseteq># mset (take ?i xs @ drop (Suc ?i) xs)" "length zs = n"
    by auto
  ultimately show ?case using ys
    by (simp add: subset_mset.add_mono)
qed

lemma generate_cases:
  assumes "generate_synthetic_saas_data n s e g = Inr (df, g')"
  obtains tm pm dates ts data df1 g1 g2 g3 g4 g5 g6 where
    "build_type_map [] (customer_ids_of n) g = Inr (tm, g1)"
    "build_plan_map [] tm g1 = Inr (pm, g2)"
    "draw_dates s (e - s) (nat n) g2 = Inr (dates, g3)"
    "add_times (sort dates) g3 = Inr (ts, g4)"
    "gen_rows (customer_ids_of n) tm pm 0 ts g4 = Inr (data, g5)"
    "data \<noteq> []"
    "retry_pass e (failed_indices data) data g5 = Inr (df1, g6)"
    "if int (length df1) > n
     then \<exists>smp. sample (nat n) (sort_values df1) g6 = Inr (smp, g') \<and> df = sort_values smp
     else df = sort_values df1 \<and> g' = g6"
  using assms
  unfolding generate_synthetic_saas_data_def Let_def
  by (auto simp: rand_simps sort_values_def split: if_splits)

lemma mset_sort_values: "mset (sort_values df) = mset df"
  by (simp add: sort_values_def)


lemma sorted_sort_values: "sorted (map timestamp (sort_values df))"
  by (simp add: sort_values_def)


lemma generate_sorted:
  assumes "generate_synthetic_saas_data n s e g = Inr (df, g')"
  shows "sorted (map timestamp df)"
  using assms by (rule generate_cases) (auto simp: sorted_sort_values split: if_splits)

lemma generate_mset:
  assumes "generate_synthetic_saas_data n s e g = Inr (df, g')"
  obtains tm pm dates ts data df1 g1 g2 g3 g4 g5 g6 where
    "build_type_map [] (customer_ids_of n) g = Inr (tm, g1)"
    "build_plan_map [] tm g1 = Inr (pm, g2)"
    "draw_dates s (e - s) (nat n) g2 = Inr (dates, g3)"
    "add_times (sort dates) g3 = Inr (ts, g4)"
    "gen_rows (customer_ids_of n) tm pm 0 ts g4 = Inr (data, g5)"
    "retry_pass e (failed_indices data) data g5 = Inr (df1, g6)"
    "mset df \<subseteq># mset df1"
proof -
  from assms obtain tm pm dates ts data df1 g1 g2 g3 g4 g5 g6 where
    a: "build_type_map [] (customer_ids_of n) g = Inr (tm, g1)"
    "build_plan_map [] tm g1 = Inr (pm, g2)"
    "draw_dates s (e - s) (nat n) g2 = Inr (dates, g3)"
    "add_times (sort dates) g3 = Inr (ts, g4)"
    "gen_rows (customer_ids_of n) tm pm 0 ts g4 = Inr (data, g5)"
    "retry_pass e (failed_indices data) data g5 = Inr (df1, g6)"
    and fin: "if int (length df1) > n
       then \<exists>smp. sample (nat n) (sort_values df1) g6 = Inr (smp, g') \<and> df = sort_values smp
       else df = sort_values df1 \<and> g' = g6"
    by (rule generate_cases)
  have "mset df \<subseteq># mset df1"
  proof (cases "int (length df1) > n")
    case True
    with fin obtain smp where "sample (nat n) (sort_values df1) g6 = Inr (smp, g')"
      and "df = sort_values smp" by auto
    with sample_mset [of "nat n" "sort_values df1" g6 smp g'] show ?thesis
      by (simp add: mset_sort_values)
  next
    case False
    with fin show ?thesis by (simp add: mset_sort_values)
  qed
  with a show ?thesis by (rule that)
qed

lemma bndE:
  assumes "bnd m f g = Inr r"
  obtains x g' where "m g = Inr (x, g')" and "f x g' = Inr r"
  using assms by (auto simp: bnd_Inr)

lemma lookup_Inr: "lookup d k g = Inr (v, g') \<Longrightarrow> map_of d k = Some v \<and> g' = g"
  by (auto simp: lookup_def rand_simps split: option.splits)

lemma np_next_uuid: "np_next g = Inr (k, g') \<Longrightarrow> uuid_src g' = uuid_src g"
  by (auto simp: np_next_def)

lemma py_next_uuid: "py_next g = Inr (k, g') \<Longrightarrow> uuid_src g' = uuid_src g"
  by (auto simp: py_next_def)

lemma np_choice_uuid: "np_choice a g = Inr (x, g') \<Longrightarrow> uuid_src g' = uuid_src g"
  by (auto simp: np_choice_def rand_simps dest: np_next_uuid split: if_splits)

lemma np_randint_uuid: "np_randint h g = Inr (x, g') \<Longrightarrow> uuid_src g' = uuid_src g"
  by (auto simp: np_randint_def rand_simps dest: np_next_uuid split: if_splits)

lemma random_unit_uuid: "random_unit g = Inr (x, g') \<Longrightarrow> uuid_src g' = uuid_src g"
  by (auto simp: random_unit_def rand_simps dest: py_next_uuid)

lemma uniform_uuid: "uniform a b g = Inr (x, g') \<Longrightarrow> uuid_src g' = uuid_src g"
  by (auto simp: uniform_def rand_simps dest: random_unit_uuid)

lemma randint_uuid: "randint a b g = Inr (x, g') \<Longrightarrow> uuid_src g' = uuid_src g"
  by (auto simp: randint_def rand_simps dest: py_next_uuid split: if_splits)

lemma pick_tx_type_uuid: "pick_tx_type i g = Inr (x, g') \<Longrightarrow> uuid_src g' = uuid_src g"
  by (auto simp: pick_tx_type_def rand_simps split: if_splits;
      metis random_unit_uuid np_choice_uuid)

lemma pick_category_uuid: "pick_category tx g = Inr (x, g') \<Longrightarrow> uuid_src g' = uuid_src g"
  by (auto simp: pick_category_def rand_simps dest: np_choice_uuid split: if_splits)

lemma base_amount_uuid: "base_amount c tx p g = Inr (x, g') \<Longrightarrow> uuid_src g' = uuid_src g"
  by (auto simp: base_amount_def rand_simps dest: uniform_uuid split: if_splits)

lemma seasonality_uuid:
  assumes "seasonality t tx a g = Inr (x, g')"
  shows "uuid_src g' = uuid_src g"
proof -
  from assms obtain a1 g1 where
    first: "(if day_of t \<ge> 25 \<and> tx = Subscription
          then bnd (uniform 1 (12 / 10)) (\<lambda>m. ret (a * m))
          else ret a) g = Inr (a1, g1)"
    and second: "(if month_of t = 12
     then bnd (uniform (11 / 10) (13 / 10)) (\<lambda>m. ret (a1 * m))
     else ret a1) g1 = Inr (x, g')"
    unfolding seasonality_def by (rule bndE)
  from first have "uuid_src g1 = uuid_src g"
    by (auto simp: rand_simps split: if_splits dest: uniform_uuid)
  moreover from second have "uuid_src g' = uuid_src g1"
    by (auto simp: rand_simps split: if_splits dest: uniform_uuid)
  ultimately show ?thesis by simp
qed

lemma uuid4_hex12_Inr:
  "uuid4_hex12 g = Inr (h, g') \<Longrightarrow>
     h = hex_digits 12 (uuid_src g 0) \<and> uuid_src g' = (\<lambda>i. uuid_src g (Suc i))"
  by (auto simp: uuid4_hex12_def uuid_next_def rand_simps)

lemma base_amount_expense:
  assumes "base_amount c tx p g = Inr (a, g')" "c \<noteq> Revenue"
  shows "a \<le> - 10"
proof -
  from assms obtain lo hi u g1 where u: "uniform lo hi g = Inr (u, g1)"
    and lo: "10 \<le> lo" "lo \<le> hi" and a: "a = - u"
    by (fastforce simp: base_amount_def rand_simps split: if_splits)
  from uniform_range [OF u lo(2)] lo(1) a show ?thesis by simp
qed

lemma seasonality_negative:
  assumes "seasonality t tx a g = Inr (a', g')" "a \<le> - 10"
  shows "a' \<le> - 10"
proof -
  have step: "x * m \<le> - 10" if "x \<le> - 10" "uniform lo hi h = Inr (m, h')" "1 \<le> lo" "lo \<le> hi"
    for x m lo hi :: rat and h h'
  proof -
    from uniform_range [OF that(2,4)] that(3) have "1 \<le> m" by simp
    with that(1) have "x * m \<le> x * 1"
      by (intro mult_left_mono_neg) auto
    then have "x * m \<le> x" by (simp only: mult_1_right)
    with that(1) show ?thesis by linarith
  qed
  from assms(1) obtain a1 g1 where
    first: "(if day_of t \<ge> 25 \<and> tx = Subscription
          then bnd (uniform 1 (12 / 10)) (\<lambda>m. ret (a * m))
          else ret a) g = Inr (a1, g1)"
    and second: "(if month_of t = 12
     then bnd (uniform (11 / 10) (13 / 10)) (\<lambda>m. ret (a1 * m))
     else ret a1) g1 = Inr (a', g')"
    unfolding seasonality_def by (rule bndE)
  from first assms(2) have "a1 \<le> - 10"
    by (auto simp: rand_simps split: if_splits intro: step)
  with second show ?thesis
    by (auto simp: rand_simps split: if_splits intro: step)
qed

lemma round_half_even_le: "round_half_even y \<le> \<lfloor>y\<rfloor> + 1"
  by (simp add: round_half_even_def Let_def)

lemma round2_negative:
  assumes "x \<le> - 10"
  shows "round2 x < 0"
proof -
  from assms have "x * 100 \<le> - 1000" by simp
  then have "\<lfloor>x * 100\<rfloor> \<le> - 1000" by (simp add: floor_le_iff)
  with round_half_even_le [of "x * 100"] have "round_half_even (x * 100) < 0" by linarith
  then show ?thesis by (simp add: round2_def)
qed

lemma gen_row_props:
  assumes "gen_row cids tm pm i t g = Inr (row, g')"
  shows "timestamp row = t"
    and "customer_id row \<in> set cids"
    and "map_of tm (customer_id row) = Some (customer_type row)"
    and "map_of pm (customer_id row) = Some (subscription_plan row)"
    and "category row \<noteq> Revenue \<longrightarrow> amount row < 0"
    and "transaction_id row = tx_prefix (category row) @ hex_digits 12 (uuid_src g 0)"
    and "uuid_src g' = (\<lambda>i. uuid_src g (Suc i))"
proof -
  from assms obtain cid ctype plan tx cat amt reg status amt' hex
      g1 g2 g3 g4 g5 g6 g7 g8 g9 where
    s1: "np_choice cids g = Inr (cid, g1)"
    and s2: "lookup tm cid g1 = Inr (ctype, g2)"
    and s3: "lookup pm cid g2 = Inr (plan, g3)"
    and s4: "pick_tx_type i g3 = Inr (tx, g4)"
    and s5: "pick_category tx g4 = Inr (cat, g5)"
    and s6: "base_amount cat tx (plan_prices plan) g5 = Inr (amt, g6)"
    and s7: "np_choice regions g6 = Inr (reg, g7)"
    and s8: "np_choice payment_statuses g7 = Inr (status, g8)"
    and s9: "seasonality t tx amt g8 = Inr (amt', g9)"
    and s10: "uuid4_hex12 g9 = Inr (hex, g')"
    and row: "row = \<lparr>transaction_id = tx_prefix cat @ hex, timestamp = t, customer_id = cid,
          amount = round2 amt', transaction_type = tx, subscription_plan = plan,
          category = cat, region = reg, payment_status = status, customer_type = ctype\<rparr>"
    unfolding gen_row_def by (elim bndE) (auto simp: ret_Inr)
  show "timestamp row = t" using row by simp
  show "customer_id row \<in> set cids" using row np_choice_mem [OF s1] by simp
  show "map_of tm (customer_id row) = Some (customer_type row)"
    using row lookup_Inr [OF s2] by simp
  show "map_of pm (customer_id row) = Some (subscription_plan row)"
    using row lookup_Inr [OF s3] by simp
  show "category row \<noteq> Revenue \<longrightarrow> amount row < 0"
    using row seasonality_negative [OF s9 base_amount_expense [OF s6]] round2_negative
    by auto
  have "uuid_src g9 = uuid_src g"
    using np_choice_uuid [OF s1] lookup_Inr [OF s2] lookup_Inr [OF s3] pick_tx_type_uuid [OF s4]
      pick_category_uuid [OF s5] base_amount_uuid [OF s6] np_choice_uuid [OF s7]
      np_choice_uuid [OF s8] seasonality_uuid [OF s9]
    by simp
  with uuid4_hex12_Inr [OF s10] row
  show "transaction_id row = tx_prefix (category row) @ hex_digits 12 (uuid_src g 0)"
    and "uuid_src g' = (\<lambda>i. uuid_src g (Suc i))"
    by simp_all
qed

lemma assign_plan_uuid: "assign_plan c g = Inr (x, g') \<Longrightarrow> uuid_src g' = uuid_src g"
  by (auto simp: assign_plan_def dest: np_choice_uuid split: if_splits)

lemma build_type_map_uuid: "build_type_map d cids g = Inr (tm, g') \<Longrightarrow> uuid_src g' = uuid_src g"
proof (induction cids arbitrary: d g)
  case Nil
  then show ?case by simp
next
  case (Cons cid cids)
  then show ?case
    by (auto split: sum.splits dest!: np_choice_uuid)
qed

lemma build_plan_map_uuid: "build_plan_map d items g = Inr (pm, g') \<Longrightarrow> uuid_src g' = uuid_src g"
proof (induction items arbitrary: d g)
  case Nil
  then show ?case by simp
next
  case (Cons item items)
  then show ?case
    by (cases item) (auto split: sum.splits dest!: assign_plan_uuid)
qed

lemma draw_dates_props:
  "draw_dates s r k g = Inr (ds, g') \<Longrightarrow>
     (\<forall>d\<in>set ds. s \<le> d \<and> d < s + r) \<and> uuid_src g' = uuid_src g"
proof (induction k arbitrary: g ds)
  case 0
  then show ?case by simp
next
  case (Suc k)
  from Suc.prems obtain d g1 ds' where d: "np_randint r g = Inr (d, g1)"
    and rec: "draw_dates s r k g1 = Inr (ds', g')" and ds: "ds = (s + d) # ds'"
    by (auto split: sum.splits)
  from Suc.IH [OF rec] np_randint_range [OF d] np_randint_uuid [OF d] ds
  show ?case by auto
qed

lemma add_time_props:
  assumes "add_time d g = Inr (t, g')"
  shows "midnight d \<le> t \<and> t < midnight (d + 1) \<and> uuid_src g' = uuid_src g"
proof -
  from assms obtain h m sec g1 g2 where h: "randint 8 20 g = Inr (h, g1)"
    and m: "randint 0 59 g1 = Inr (m, g2)" and sec: "randint 0 59 g2 = Inr (sec, g')"
    and t: "t = midnight d + h * 3600 + m * 60 + sec"
    unfolding add_time_def by (elim bndE) (auto simp: ret_Inr)
  from randint_range [OF h] randint_range [OF m] randint_range [OF sec] t
  have "midnight d \<le> t \<and> t < midnight (d + 1)"
    by (simp add: midnight_def seconds_per_day_def)
  moreover have "uuid_src g' = uuid_src g"
    using randint_uuid [OF h] randint_uuid [OF m] randint_uuid [OF sec] by simp
  ultimately show ?thesis by simp
qed

lemma add_times_props:
  "add_times ds g = Inr (ts, g') \<Longrightarrow>
     list_all2 (\<lambda>d t. midnight d \<le> t \<and> t < midnight (d + 1)) ds ts \<and> uuid_src g' = uuid_src g"
proof (induction ds arbitrary: g ts)
  case Nil
  then show ?case by simp
next
  case (Cons d ds)
  from Cons.prems obtain t g1 ts' where t: "add_time d g = Inr (t, g1)"
    and rec: "add_times ds g1 = Inr (ts', g')" and ts: "ts = t # ts'"
    by (auto split: sum.splits)
  from Cons.IH [OF rec] add_time_props [OF t] ts show ?case by simp
qed

lemma length_hex_digits: "length (hex_digits n k) = n"
  by (induction n arbitrary: k) auto

lemma gen_rows_props:
  "gen_rows cids tm pm i ts g = Inr (rows, g') \<Longrightarrow>
     map timestamp rows = ts
     \<and> (\<forall>r\<in>set rows. customer_id r \<in> set cids
            \<and> map_of tm (customer_id r) = Some (customer_type r)
            \<and> map_of pm (customer_id r) = Some (subscription_plan r)
            \<and> (category r \<noteq> Revenue \<longrightarrow> amount r < 0)
            \<and> take 4 (transaction_id r) = tx_prefix (category r)
            \<and> length (transaction_id r) = 16)
     \<and> map (drop 4 \<circ> transaction_id) rows
          = map (\<lambda>j. hex_digits 12 (uuid_src g j)) [0 ..< length ts]
     \<and> uuid_src g' = (\<lambda>j. uuid_src g (j + length ts))"
proof (induction ts arbitrary: i g rows)
  case Nil
  then show ?case by simp
next
  case (Cons t ts)
  from Cons.prems obtain r g1 rs where r: "gen_row cids tm pm i t g = Inr (r, g1)"
    and rec: "gen_rows cids tm pm (Suc i) ts g1 = Inr (rs, g')" and rows: "rows = r # rs"
    by (auto split: sum.splits)
  note p = gen_row_props [OF r]
  note ih = Cons.IH [OF rec]
  have len4: "length (tx_prefix (category r)) = 4"
    by (simp add: tx_prefix_def)
  have tid: "take 4 (transaction_id r) = tx_prefix (category r)"
    "length (transaction_id r) = 16"
    "drop 4 (transaction_id r) = hex_digits 12 (uuid_src g 0)"
    using p(6) len4 by (simp_all add: length_hex_digits)
  have upt: "[0 ..< length (t # ts)] = 0 # map Suc [0 ..< length ts]"
    by (simp add: upt_conv_Cons map_Suc_upt del: upt_Suc)
  have "map (drop 4 \<circ> transaction_id) rows
          = map (\<lambda>j. hex_digits 12 (uuid_src g j)) [0 ..< length (t # ts)]"
    unfolding upt using rows tid(3) ih p(7) by (simp add: comp_def)
  moreover have "uuid_src g' = (\<lambda>j. uuid_src g (j + length (t # ts)))"
    using ih p(7) by simp
  moreover have "map timestamp rows = t # ts"
    using rows p(1) ih by simp
  ultimately show ?case
    using rows p(2-5) tid(1,2) ih by simp
qed

lemma retry_pass_spec:
  assumes "retry_pass e idxs df g = Inr (df', g')"
    and "\<forall>i\<in>set idxs. i < length base"
    and "prefix base df"
  shows "\<exists>picked.
           df' = df @ map (\<lambda>(i, d). retry_of (base ! i) (add_days (timestamp (base ! i)) d)) picked
           \<and> subseq (map fst picked) idxs
           \<and> (\<forall>(i, d)\<in>set picked.
                 1 \<le> d \<and> d \<le> 7 \<and> add_days (timestamp (base ! i)) d \<le> midnight e)
           \<and> uuid_src g' = uuid_src g"
  using assms
proof (induction idxs arbitrary: df g)
  case Nil
  then show ?case by (intro exI [of _ "[]"]) simp
next
  case (Cons idx idxs)
  let ?F = "\<lambda>(i, d). retry_of (base ! i) (add_days (timestamp (base ! i)) d)"
  from Cons.prems(2) have bound: "\<forall>i\<in>set idxs. i < length base" and idx: "idx < length base"
    by auto
  from Cons.prems(3) idx have nth: "df ! idx = base ! idx" and idx': "idx < length df"
    by (auto simp: prefix_def nth_append)
  from Cons.prems(1) obtain u g1 where u: "random_unit g = Inr (u, g1)"
    by (auto split: sum.splits)
  show ?case
  proof (cases "u < 7 / 10")
    case False
    with Cons.prems(1) u have "retry_pass e idxs df g1 = Inr (df', g')"
      by simp
    from Cons.IH [OF this bound Cons.prems(3)] obtain picked where
      "df' = df @ map ?F picked" "subseq (map fst picked) idxs"
      "\<forall>(i, d)\<in>set picked. 1 \<le> d \<and> d \<le> 7 \<and> add_days (timestamp (base ! i)) d \<le> midnight e"
      "uuid_src g' = uuid_src g1"
      by blast
    with random_unit_uuid [OF u] show ?thesis
      by (intro exI [of _ picked]) (simp add: list_emb_Cons)
  next
    case True
    with Cons.prems(1) u idx' obtain d g2 where d: "randint 1 7 g1 = Inr (d, g2)"
      by (auto split: sum.splits)
    let ?date = "add_days (timestamp (base ! idx)) d"
    show ?thesis
    proof (cases "?date \<le> midnight e")
      case False
      with Cons.prems(1) u True idx' d nth have "retry_pass e idxs df g2 = Inr (df', g')"
        by (simp add: Let_def)
      from Cons.IH [OF this bound Cons.prems(3)] obtain picked where
        "df' = df @ map ?F picked" "subseq (map fst picked) idxs"
        "\<forall>(i, d)\<in>set picked. 1 \<le> d \<and> d \<le> 7 \<and> add_days (timestamp (base ! i)) d \<le> midnight e"
        "uuid_src g' = uuid_src g2"
        by blast
      with random_unit_uuid [OF u] randint_uuid [OF d] show ?thesis
        by (intro exI [of _ picked]) (simp add: list_emb_Cons)
    next
      case ok: True
      with Cons.prems(1) u True idx' d nth
      have run: "retry_pass e idxs (df @ [retry_of (base ! idx) ?date]) g2 = Inr (df', g')"
        by (simp add: Let_def)
      have pre: "prefix base (df @ [retry_of (base ! idx) ?date])"
        using Cons.prems(3) by simp
      from Cons.IH [OF run bound pre] obtain picked where
        p: "df' = (df @ [retry_of (base ! idx) ?date]) @ map ?F picked"
        "subseq (map fst picked) idxs"
        "\<forall>(i, d)\<in>set picked. 1 \<le> d \<and> d \<le> 7 \<and> add_days (timestamp (base ! i)) d \<le> midnight e"
        "uuid_src g' = uuid_src g2"
        by blast
      with random_unit_uuid [OF u] randint_uuid [OF d] randint_range [OF d] ok show ?thesis
        by (intro exI [of _ "(idx, d) # picked"]) simp
    qed
  qed
qed

lemma failed_indices_props:
  "distinct (failed_indices df)"
  "i \<in> set (failed_indices df) \<Longrightarrow> i < length df \<and> payment_status (df ! i) = Failed"
  by (auto simp: failed_indices_def)

lemma midnight_mono: "a \<le> b \<Longrightarrow> midnight a \<le> midnight b"
  by (simp add: midnight_def seconds_per_day_def)

lemma generate_origin:
  assumes "generate_synthetic_saas_data n s e g = Inr (df, g')"
  obtains tm pm ts data g4 g5 picked where
    "gen_rows (customer_ids_of n) tm pm 0 ts g4 = Inr (data, g5)"
    "uuid_src g4 = uuid_src g"
    "length ts = nat n"
    "\<forall>t\<in>set ts. midnight s \<le> t \<and> t < midnight e"
    "mset df \<subseteq># mset (data @ map (\<lambda>(i, d). retry_of (data ! i) (add_days (timestamp (data ! i)) d)) picked)"
    "subseq (map fst picked) (failed_indices data)"
    "\<forall>(i, d)\<in>set picked. 1 \<le> d \<and> d \<le> 7 \<and> add_days (timestamp (data ! i)) d \<le> midnight e"
proof -
  from assms obtain tm pm dates ts data df1 g1 g2 g3 g4 g5 g6 where
    tm: "build_type_map [] (customer_ids_of n) g = Inr (tm, g1)"
    and pm: "build_plan_map [] tm g1 = Inr (pm, g2)"
    and dates: "draw_dates s (e - s) (nat n) g2 = Inr (dates, g3)"
    and ts: "add_times (sort dates) g3 = Inr (ts, g4)"
    and data: "gen_rows (customer_ids_of n) tm pm 0 ts g4 = Inr (data, g5)"
    and retry: "retry_pass e (failed_indices data) data g5 = Inr (df1, g6)"
    and sub: "mset df \<subseteq># mset df1"
    by (rule generate_mset)
  have uuid: "uuid_src g4 = uuid_src g"
    using build_type_map_uuid [OF tm] build_plan_map_uuid [OF pm] draw_dates_props [OF dates]
      add_times_props [OF ts]
    by simp
  have len: "length ts = nat n"
    using length_draw_dates [OF dates] length_add_times [OF ts] by simp
  have range: "\<forall>t\<in>set ts. midnight s \<le> t \<and> t < midnight e"
  proof
    fix t assume "t \<in> set ts"
    then obtain k where k: "k < length ts" "ts ! k = t"
      by (auto simp: in_set_conv_nth)
    from add_times_props [OF ts] have all2: "list_all2 (\<lambda>d t. midnight d \<le> t \<and> t < midnight (d + 1)) (sort dates) ts"
      by simp
    let ?d = "sort dates ! k"
    from all2 k have bounds: "midnight ?d \<le> t" "t < midnight (?d + 1)"
      by (auto simp: list_all2_conv_all_nth)
    from list_all2_lengthD [OF all2] k have "k < length (sort dates)"
      by simp
    then have "?d \<in> set (sort dates)"
      by (rule nth_mem)
    then have "?d \<in> set dates"
      by simp
    with draw_dates_props [OF dates] have "s \<le> ?d" "?d + 1 \<le> e"
      by auto
    with bounds midnight_mono [of s ?d] midnight_mono [of "?d + 1" e]
    show "midnight s \<le> t \<and> t < midnight e" by simp
  qed
  have "\<forall>i\<in>set (failed_indices data). i < length data"
    by (simp add: failed_indices_props)
  from retry_pass_spec [OF retry this] obtain picked where
    df1: "df1 = data @ map (\<lambda>(i, d). retry_of (data ! i) (add_days (timestamp (data ! i)) d)) picked"
    and p: "subseq (map fst picked) (failed_indices data)"
    "\<forall>(i, d)\<in>set picked. 1 \<le> d \<and> d \<le> 7 \<and> add_days (timestamp (data ! i)) d \<le> midnight e"
    by auto
  from sub have "mset df \<subseteq># mset (data @ map (\<lambda>(i, d). retry_of (data ! i) (add_days (timestamp (data ! i)) d)) picked)"
    unfolding df1 .
  with data uuid len range show ?thesis
    using p by (rule that)
qed

lemma subseq_set: "subseq xs ys \<Longrightarrow> set xs \<subseteq> set ys"
  by (induction rule: list_emb.induct) auto

lemma subseq_distinct: "subseq xs ys \<Longrightarrow> distinct ys \<Longrightarrow> distinct xs"
  by (induction rule: list_emb.induct) (auto dest: subseq_set)

lemma distinct_mset_subseteq:
  assumes "mset xs \<subseteq># mset ys" "distinct ys"
  shows "distinct xs"
proof -
  have "count (mset xs) a = (if a \<in> set xs then 1 else 0)" for a
  proof (cases "a \<in> set xs")
    case True
    then have "0 < count (mset xs) a" by simp
    moreover from assms(1) have "count (mset xs) a \<le> count (mset ys) a"
      by (rule mset_subset_eq_count)
    moreover from assms(2) have "count (mset ys) a \<le> 1"
      by (simp add: distinct_count_atmost_1)
    ultimately have "count (mset xs) a = 1" by linarith
    with True show ?thesis by simp
  next
    case False
    then show ?thesis by (simp add: count_eq_zero_iff)
  qed
  then show ?thesis
    by (simp only: distinct_count_atmost_1) simp
qed

lemma generate_row_cases:
  assumes "generate_synthetic_saas_data n s e g = Inr (df, g')"
  obtains tm pm where
    "\<forall>r\<in>set df. \<exists>orig d. 
        map_of tm (customer_id orig) = Some (customer_type orig)
        \<and> map_of pm (customer_id orig) = Some (subscription_plan orig)
        \<and> (category orig \<noteq> Revenue \<longrightarrow> amount orig < 0)
        \<and> take 4 (transaction_id orig) = tx_prefix (category orig)
        \<and> midnight s \<le> timestamp orig \<and> timestamp orig < midnight e
        \<and> (r = orig
            \<or> (1 \<le> d \<and> d \<le> 7 \<and> add_days (timestamp orig) d \<le> midnight e
                \<and> r = retry_of orig (add_days (timestamp orig) d)))"
proof -
  from assms obtain tm pm ts data g4 g5 picked where
    data: "gen_rows (customer_ids_of n) tm pm 0 ts g4 = Inr (data, g5)"
    and range: "\<forall>t\<in>set ts. midnight s \<le> t \<and> t < midnight e"
    and sub: "mset df \<subseteq># mset (data @ map (\<lambda>(i, d). retry_of (data ! i) (add_days (timestamp (data ! i)) d)) picked)"
    and idxs: "subseq (map fst picked) (failed_indices data)"
    and picked: "\<forall>(i, d)\<in>set picked. 1 \<le> d \<and> d \<le> 7 \<and> add_days (timestamp (data ! i)) d \<le> midnight e"
    by (rule generate_origin)
  note props = gen_rows_props [OF data]
  have orig_props: "map_of tm (customer_id r) = Some (customer_type r)
        \<and> map_of pm (customer_id r) = Some (subscription_plan r)
        \<and> (category r \<noteq> Revenue \<longrightarrow> amount r < 0)
        \<and> take 4 (transaction_id r) = tx_prefix (category r)
        \<and> midnight s \<le> timestamp r \<and> timestamp r < midnight e" if "r \<in> set data" for r
  proof -
    from that have "timestamp r \<in> set (map timestamp data)" by simp
    with props have "timestamp r \<in> set ts" by simp
    with range props that show ?thesis by simp
  qed
  let ?F = "\<lambda>p. retry_of (data ! fst p) (add_days (timestamp (data ! fst p)) (snd p))"
  have F: "(\<lambda>(i, d). retry_of (data ! i) (add_days (timestamp (data ! i)) d)) = ?F"
    by (simp add: fun_eq_iff)
  have "\<exists>orig d.
        map_of tm (customer_id orig) = Some (customer_type orig)
        \<and> map_of pm (customer_id orig) = Some (subscription_plan orig)
        \<and> (category orig \<noteq> Revenue \<longrightarrow> amount orig < 0)
        \<and> take 4 (transaction_id orig) = tx_prefix (category orig)
        \<and> midnight s \<le> timestamp orig \<and> timestamp orig < midnight e
        \<and> (r = orig
            \<or> (1 \<le> d \<and> d \<le> 7 \<and> add_days (timestamp orig) d \<le> midnight e
                \<and> r = retry_of orig (add_days (timestamp orig) d)))" if r: "r \<in> set df" for r
  proof -
    from set_mset_mono [OF sub] have "set df \<subseteq> set (data @ map ?F picked)"
      unfolding F set_mset_mset .
    with r have "r \<in> set (data @ map ?F picked)" ..
    then have "r \<in> set data \<or> r \<in> ?F ` set picked"
      by (simp only: set_append set_map Un_iff)
    then show ?thesis
    proof
      assume "r \<in> set data"
      from orig_props [OF this] show ?thesis
        by (intro exI [of _ r] exI [of _ 0]) blast
    next
      assume "r \<in> ?F ` set picked"
      then obtain p where p: "p \<in> set picked" and rp: "r = ?F p" ..
      from p have "fst p \<in> set (map fst picked)"
        by (simp only: set_map) (rule imageI)
      with subseq_set [OF idxs] have "fst p \<in> set (failed_indices data)" ..
      then have "data ! fst p \<in> set data"
        by (simp add: failed_indices_props)
      note o = orig_props [OF this]
      from picked p
      have "case p of (i, d) \<Rightarrow>
              1 \<le> d \<and> d \<le> 7 \<and> add_days (timestamp (data ! i)) d \<le> midnight e"
        by (rule bspec)
      then have "1 \<le> snd p \<and> snd p \<le> 7
          \<and> add_days (timestamp (data ! fst p)) (snd p) \<le> midnight e"
        by (simp add: case_prod_beta)
      with o rp show ?thesis
        by (intro exI [of _ "data ! fst p"] exI [of _ "snd p"]) blast
    qed
  qed
  then show ?thesis
    by (intro that [of tm pm] ballI)
qed

lemma retry_of_fields:
  "customer_id (retry_of f t) = customer_id f"
  "customer_type (retry_of f t) = customer_type f"
  "subscription_plan (retry_of f t) = subscription_plan f"
  "category (retry_of f t) = category f"
  "amount (retry_of f t) = amount f"
  "transaction_type (retry_of f t) = transaction_type f"
  "region (retry_of f t) = region f"
  "timestamp (retry_of f t) = t"
  "payment_status (retry_of f t) = Completed"
  "transaction_id (retry_of f t) = ''RETRY_'' @ drop 4 (transaction_id f)"
  by (simp_all add: retry_of_def)

lemma add_days_ge: "0 \<le> d \<Longrightarrow> t \<le> add_days t d"
  by (simp add: add_days_def seconds_per_day_def)

lemma generate_row_facts:
  assumes "generate_synthetic_saas_data n s e g = Inr (df, g')"
  obtains tm pm where
    "\<forall>r\<in>set df.
        map_of tm (customer_id r) = Some (customer_type r)
        \<and> map_of pm (customer_id r) = Some (subscription_plan r)
        \<and> (category r \<noteq> Revenue \<longrightarrow> amount r < 0)
        \<and> midnight s \<le> timestamp r \<and> timestamp r \<le> midnight e
        \<and> (take 4 (transaction_id r) = tx_prefix (category r)
            \<or> take 6 (transaction_id r) = ''RETRY_'')"
proof -
  from assms obtain tm pm where cases:
    "\<forall>r\<in>set df. \<exists>orig d.
        map_of tm (customer_id orig) = Some (customer_type orig)
        \<and> map_of pm (customer_id orig) = Some (subscription_plan orig)
        \<and> (category orig \<noteq> Revenue \<longrightarrow> amount orig < 0)
        \<and> take 4 (transaction_id orig) = tx_prefix (category orig)
        \<and> midnight s \<le> timestamp orig \<and> timestamp orig < midnight e
        \<and> (r = orig
            \<or> (1 \<le> d \<and> d \<le> 7 \<and> add_days (timestamp orig) d \<le> midnight e
                \<and> r = retry_of orig (add_days (timestamp orig) d)))"
    by (rule generate_row_cases)
  have "map_of tm (customer_id r) = Some (customer_type r)
        \<and> map_of pm (customer_id r) = Some (subscription_plan r)
        \<and> (category r \<noteq> Revenue \<longrightarrow> amount r < 0)
        \<and> midnight s \<le> timestamp r \<and> timestamp r \<le> midnight e
        \<and> (take 4 (transaction_id r) = tx_prefix (category r)
            \<or> take 6 (transaction_id r) = ''RETRY_'')" if "r \<in> set df" for r
  proof -
    from cases that obtain orig d where
      o: "map_of tm (customer_id orig) = Some (customer_type orig)"
        "map_of pm (customer_id orig) = Some (subscription_plan orig)"
        "category orig \<noteq> Revenue \<longrightarrow> amount orig < 0"
        "take 4 (transaction_id orig) = tx_prefix (category orig)"
        "midnight s \<le> timestamp orig" "timestamp orig < midnight e"
      and r: "r = orig
            \<or> (1 \<le> d \<and> d \<le> 7 \<and> add_days (timestamp orig) d \<le> midnight e
                \<and> r = retry_of orig (add_days (timestamp orig) d))"
      by blast
    from r show ?thesis
    proof
      assume "r = orig"
      with o show ?thesis by simp
    next
      assume a: "1 \<le> d \<and> d \<le> 7 \<and> add_days (timestamp orig) d \<le> midnight e
                \<and> r = retry_of orig (add_days (timestamp orig) d)"
      then have "timestamp orig \<le> add_days (timestamp orig) d"
        by (intro add_days_ge) simp
      with a o show ?thesis
        by (simp add: retry_of_fields)
    qed
  qed
  then show ?thesis
    by (intro that [of tm pm] ballI)
qed

text \<open>
  C2. In the frame the generator returns, retry rows included, two rows with the same
  \<open>customer_id\<close> have the same \<open>customer_type\<close> and the same \<open>subscription_plan\<close>.
\<close>

theorem customer_attributes_functional:
  assumes "generate_synthetic_saas_data num_rows start_date end_date g = Inr (df, g')"
    and "r1 \<in> set df" and "r2 \<in> set df"
    and "customer_id r1 = customer_id r2"
  shows "customer_type r1 = customer_type r2 \<and> subscription_plan r1 = subscription_plan r2"
proof -
  from assms(1) obtain tm pm where
    "\<forall>r\<in>set df.
        map_of tm (customer_id r) = Some (customer_type r)
        \<and> map_of pm (customer_id r) = Some (subscription_plan r)
        \<and> (category r \<noteq> Revenue \<longrightarrow> amount r < 0)
        \<and> midnight start_date \<le> timestamp r \<and> timestamp r \<le> midnight end_date
        \<and> (take 4 (transaction_id r) = tx_prefix (category r)
            \<or> take 6 (transaction_id r) = ''RETRY_'')"
    by (rule generate_row_facts)
  with assms(2,3) have
    "map_of tm (customer_id r1) = Some (customer_type r1)"
    "map_of tm (customer_id r2) = Some (customer_type r2)"
    "map_of pm (customer_id r1) = Some (subscription_plan r1)"
    "map_of pm (customer_id r2) = Some (subscription_plan r2)"
    by blast+
  with assms(4) show ?thesis by simp
qed

text \<open>
  C9. In the frame the generator returns, every row whose category is not \<open>Revenue\<close>
  has a strictly negative amount.
\<close>

theorem expense_amount_negative:
  assumes "generate_synthetic_saas_data num_rows start_date end_date g = Inr (df, g')"
    and "r \<in> set df" and "category r \<noteq> Revenue"
  shows "amount r < 0"
proof -
  from assms(1) obtain tm pm where
    "\<forall>r\<in>set df.
        map_of tm (customer_id r) = Some (customer_type r)
        \<and> map_of pm (customer_id r) = Some (subscription_plan r)
        \<and> (category r \<noteq> Revenue \<longrightarrow> amount r < 0)
        \<and> midnight start_date \<le> timestamp r \<and> timestamp r \<le> midnight end_date
        \<and> (take 4 (transaction_id r) = tx_prefix (category r)
            \<or> take 6 (transaction_id r) = ''RETRY_'')"
    by (rule generate_row_facts)
  with assms(2,3) show ?thesis by blast
qed

text \<open>
  C10. Every timestamp of the frame the generator returns lies between the midnight of
  \<open>start_date\<close> and the midnight of \<open>end_date\<close>.
\<close>

theorem timestamp_in_range:
  assumes "generate_synthetic_saas_data num_rows start_date end_date g = Inr (df, g')"
    and "r \<in> set df"
  shows "midnight start_date \<le> timestamp r \<and> timestamp r \<le> midnight end_date"
proof -
  from assms(1) obtain tm pm where
    "\<forall>r\<in>set df.
        map_of tm (customer_id r) = Some (customer_type r)
        \<and> map_of pm (customer_id r) = Some (subscription_plan r)
        \<and> (category r \<noteq> Revenue \<longrightarrow> amount r < 0)
        \<and> midnight start_date \<le> timestamp r \<and> timestamp r \<le> midnight end_date
        \<and> (take 4 (transaction_id r) = tx_prefix (category r)
            \<or> take 6 (transaction_id r) = ''RETRY_'')"
    by (rule generate_row_facts)
  with assms(2) show ?thesis by blast
qed

text \<open>
  C5. The timestamps of the frame the generator returns are non-decreasing: the list of
  timestamps is sorted, and each row's timestamp is at most the next row's. The
  statement covers both exits, since it is about whatever frame is returned.
\<close>

theorem timestamps_non_decreasing:
  assumes "generate_synthetic_saas_data num_rows start_date end_date g = Inr (df, g')"
  shows "sorted (map timestamp df)
         \<and> (\<forall>i. Suc i < length df \<longrightarrow> timestamp (df ! i) \<le> timestamp (df ! Suc i))"
proof -
  have s: "sorted (map timestamp df)"
    using assms by (rule generate_sorted)
  have "timestamp (df ! i) \<le> timestamp (df ! Suc i)" if "Suc i < length df" for i
    using sorted_nth_mono [OF s, of i "Suc i"] that by simp
  with s show ?thesis by blast
qed

text \<open>
  C4. The second pass only appends rows to the frame. Each appended row comes from a
  row \<open>f\<close> of the frame whose status is \<open>Failed\<close>: its status is \<open>Completed\<close>,
  its timestamp is that of \<open>f\<close> plus 1 to 7 days and is not after \<open>end_date\<close>, its
  transaction id is \<open>RETRY_\<close> followed by the id of \<open>f\<close> without its first four
  characters, and every other field is that of \<open>f\<close>.
\<close>

theorem retry_records:
  assumes "retry_pass end_date (failed_indices df) df g = Inr (df', g')"
  shows "\<exists>retries. df' = df @ retries
           \<and> (\<forall>r\<in>set retries. \<exists>f\<in>set df. \<exists>d.
                 payment_status f = Failed
                 \<and> 1 \<le> d \<and> d \<le> 7
                 \<and> timestamp r = timestamp f + d * 86400
                 \<and> timestamp r \<le> end_date * 86400
                 \<and> payment_status r = Completed
                 \<and> transaction_id r = ''RETRY_'' @ drop 4 (transaction_id f)
                 \<and> r = f\<lparr>timestamp := timestamp r, payment_status := Completed,
                          transaction_id := transaction_id r\<rparr>)"
proof -
  let ?F = "\<lambda>p. retry_of (df ! fst p) (add_days (timestamp (df ! fst p)) (snd p))"
  have F: "(\<lambda>(i, d). retry_of (df ! i) (add_days (timestamp (df ! i)) d)) = ?F"
    by (simp add: fun_eq_iff)
  have "\<forall>i\<in>set (failed_indices df). i < length df"
    by (simp add: failed_indices_props)
  from retry_pass_spec [OF assms this] obtain picked where
    df': "df' = df @ map ?F picked"
    and idxs: "subseq (map fst picked) (failed_indices df)"
    and picked: "\<forall>(i, d)\<in>set picked.
        1 \<le> d \<and> d \<le> 7 \<and> add_days (timestamp (df ! i)) d \<le> midnight end_date"
    unfolding F by auto
  have "\<exists>f\<in>set df. \<exists>d.
                 payment_status f = Failed
                 \<and> 1 \<le> d \<and> d \<le> 7
                 \<and> timestamp r = timestamp f + d * 86400
                 \<and> timestamp r \<le> end_date * 86400
                 \<and> payment_status r = Completed
                 \<and> transaction_id r = ''RETRY_'' @ drop 4 (transaction_id f)
                 \<and> r = f\<lparr>timestamp := timestamp r, payment_status := Completed,
                          transaction_id := transaction_id r\<rparr>" if "r \<in> set (map ?F picked)" for r
  proof -
    from that obtain p where p: "p \<in> set picked" and r: "r = ?F p"
      by (auto simp only: set_map)
    from p have "fst p \<in> set (map fst picked)"
      by (simp only: set_map) (rule imageI)
    with subseq_set [OF idxs] have "fst p \<in> set (failed_indices df)" ..
    then have f: "df ! fst p \<in> set df" "payment_status (df ! fst p) = Failed"
      by (simp_all add: failed_indices_props)
    from picked p
    have "case p of (i, d) \<Rightarrow>
            1 \<le> d \<and> d \<le> 7 \<and> add_days (timestamp (df ! i)) d \<le> midnight end_date"
      by (rule bspec)
    then have d: "1 \<le> snd p" "snd p \<le> 7"
        "add_days (timestamp (df ! fst p)) (snd p) \<le> midnight end_date"
      by (simp_all add: case_prod_beta)
    show ?thesis
    proof (intro bexI [of _ "df ! fst p"] exI [of _ "snd p"] conjI)
      show "r = (df ! fst p)\<lparr>timestamp := timestamp r, payment_status := Completed,
                          transaction_id := transaction_id r\<rparr>"
        unfolding r by (simp add: retry_of_def)
    qed (use f d r in \<open>simp_all add: retry_of_fields add_days_def midnight_def seconds_per_day_def\<close>)
  qed
  with df' show ?thesis
    by (intro exI [of _ "map ?F picked"]) blast
qed

lemma distinct_map_nth:
  assumes "distinct H" "distinct ks" "\<forall>i\<in>set ks. i < length H"
  shows "distinct (map (\<lambda>i. H ! i) ks)"
proof -
  have "inj_on (\<lambda>i. H ! i) (set ks)"
    using assms(1,3) by (auto simp: inj_on_def nth_eq_iff_index_eq)
  with assms(2) show ?thesis by (simp add: distinct_map)
qed

lemma generate_ids_distinct:
  assumes gen: "generate_synthetic_saas_data n s e g = Inr (df, g')"
    and hex: "distinct (map (\<lambda>j. hex_digits 12 (uuid_src g j)) [0 ..< nat n])"
  shows "distinct (map transaction_id df)"
proof -
  from gen obtain tm pm ts data g4 g5 picked where
    data: "gen_rows (customer_ids_of n) tm pm 0 ts g4 = Inr (data, g5)"
    and uuid: "uuid_src g4 = uuid_src g"
    and len: "length ts = nat n"
    and range: "\<forall>t\<in>set ts. midnight s \<le> t \<and> t < midnight e"
    and sub: "mset df \<subseteq># mset (data @ map (\<lambda>(i, d). retry_of (data ! i) (add_days (timestamp (data ! i)) d)) picked)"
    and idxs: "subseq (map fst picked) (failed_indices data)"
    and picked: "\<forall>(i, d)\<in>set picked. 1 \<le> d \<and> d \<le> 7 \<and> add_days (timestamp (data ! i)) d \<le> midnight e"
    by (rule generate_origin)
  let ?F = "\<lambda>p. retry_of (data ! fst p) (add_days (timestamp (data ! fst p)) (snd p))"
  have F: "(\<lambda>(i, d). retry_of (data ! i) (add_days (timestamp (data ! i)) d)) = ?F"
    by (simp add: fun_eq_iff)
  note props = gen_rows_props [OF data]
  define H where "H = map (drop 4 \<circ> transaction_id) data"
  have H: "distinct H"
    using props hex uuid len unfolding H_def by simp
  have lenH: "length H = length data"
    by (simp add: H_def)
  have "distinct (map (drop 4) (map transaction_id data))"
    using H by (simp add: H_def)
  then have orig: "distinct (map transaction_id data)"
    by (simp only: distinct_map)
  have dis: "distinct (map fst picked)"
    using idxs failed_indices_props(1) by (rule subseq_distinct)
  have bound: "\<forall>i\<in>set (map fst picked). i < length H"
    using subseq_set [OF idxs] failed_indices_props(2) [of _ data] lenH by auto
  have retry_ids: "map transaction_id (map ?F picked)
      = map ((@) ''RETRY_'') (map (\<lambda>i. H ! i) (map fst picked))"
    using bound by (simp add: retry_of_fields H_def lenH [unfolded H_def])
  have "distinct (map (\<lambda>i. H ! i) (map fst picked))"
    using H dis bound by (rule distinct_map_nth)
  then have retries: "distinct (map transaction_id (map ?F picked))"
    unfolding retry_ids by (simp add: distinct_map inj_on_def)
  have disjoint: "set (map transaction_id data) \<inter> set (map transaction_id (map ?F picked)) = {}"
  proof -
    have "take 4 x \<noteq> take 4 y"
      if "x \<in> set (map transaction_id data)" "y \<in> set (map transaction_id (map ?F picked))"
      for x y
    proof -
      from that(1) obtain r where "r \<in> set data" "x = transaction_id r"
        by auto
      with props have "take 4 x = tx_prefix (category r)"
        by simp
      then have "take 4 x = ''REV_'' \<or> take 4 x = ''EXP_''"
        by (simp add: tx_prefix_def)
      moreover from that(2) have "take 4 y = ''RETR''"
        unfolding retry_ids by auto
      ultimately show ?thesis by auto
    qed
    then show ?thesis by blast
  qed
  from orig retries disjoint
  have "distinct (map transaction_id (data @ map ?F picked))"
    by simp
  moreover from sub have "mset (map transaction_id df)
      \<subseteq># mset (map transaction_id (data @ map ?F picked))"
    unfolding F mset_map by (rule image_mset_subseteq_mono)
  ultimately show ?thesis
    by (rule distinct_mset_subseteq [rotated])
qed

text \<open>
  C6, as the code has it. Every transaction id of the returned frame starts with
  \<open>REV_\<close> (category \<open>Revenue\<close>), \<open>EXP_\<close> (any other category) or \<open>RETRY_\<close>
  (a retry row). The ids are pairwise different whenever the twelve-digit prefixes of
  the UUIDs drawn for the \<open>num_rows\<close> rows are pairwise different; the generator
  does not check for a repeated prefix.
\<close>

theorem transaction_ids_prefixed_and_unique:
  assumes "generate_synthetic_saas_data num_rows start_date end_date g = Inr (df, g')"
  shows "(distinct (map (\<lambda>j. hex_digits 12 (uuid_src g j)) [0 ..< nat num_rows])
            \<longrightarrow> distinct (map transaction_id df))
         \<and> (\<forall>r\<in>set df.
               (category r = Revenue \<and> take 4 (transaction_id r) = ''REV_'')
               \<or> (category r \<noteq> Revenue \<and> take 4 (transaction_id r) = ''EXP_'')
               \<or> take 6 (transaction_id r) = ''RETRY_'')"
proof -
  from assms obtain tm pm where
    "\<forall>r\<in>set df.
        map_of tm (customer_id r) = Some (customer_type r)
        \<and> map_of pm (customer_id r) = Some (subscription_plan r)
        \<and> (category r \<noteq> Revenue \<longrightarrow> amount r < 0)
        \<and> midnight start_date \<le> timestamp r \<and> timestamp r \<le> midnight end_date
        \<and> (take 4 (transaction_id r) = tx_prefix (category r)
            \<or> take 6 (transaction_id r) = ''RETRY_'')"
    by (rule generate_row_facts)
  then have "\<forall>r\<in>set df. take 4 (transaction_id r) = tx_prefix (category r)
            \<or> take 6 (transaction_id r) = ''RETRY_''"
    by blast
  then have "\<forall>r\<in>set df.
               (category r = Revenue \<and> take 4 (transaction_id r) = ''REV_'')
               \<or> (category r \<noteq> Revenue \<and> take 4 (transaction_id r) = ''EXP_'')
               \<or> take 6 (transaction_id r) = ''RETRY_''"
    unfolding tx_prefix_def by (auto split: if_splits)
  with generate_ids_distinct [OF assms] show ?thesis by blast
qed

lemma bnd_returns:
  assumes "\<And>g. \<exists>x g'. m g = Inr (x, g')" and "\<And>x g. \<exists>y g'. f x g = Inr (y, g')"
  shows "\<exists>y g'. bnd m f g = Inr (y, g')"
proof -
  from assms(1) obtain x g1 where "m g = Inr (x, g1)" by blast
  moreover from assms(2) obtain y g2 where "f x g1 = Inr (y, g2)" by blast
  ultimately show ?thesis by (simp add: bnd_def)
qed

lemma ret_returns: "\<exists>y g'. ret x g = Inr (y, g')"
  by (simp add: ret_def)

lemma np_next_returns: "\<exists>y g'. np_next g = Inr (y, g')"
  by (simp add: np_next_def)

lemma py_next_returns: "\<exists>y g'. py_next g = Inr (y, g')"
  by (simp add: py_next_def)

lemmas returns_intros = bnd_returns ret_returns np_next_returns py_next_returns

lemma np_choice_returns: "a \<noteq> [] \<Longrightarrow> \<exists>y g'. np_choice a g = Inr (y, g')"
  by (auto simp: np_choice_def intro!: returns_intros)

lemma np_randint_returns: "0 < high \<Longrightarrow> \<exists>y g'. np_randint high g = Inr (y, g')"
  by (auto simp: np_randint_def intro!: returns_intros)

lemma random_unit_returns: "\<exists>y g'. random_unit g = Inr (y, g')"
  unfolding random_unit_def by (intro returns_intros)

lemma uniform_returns: "\<exists>y g'. uniform a b g = Inr (y, g')"
  unfolding uniform_def by (intro returns_intros random_unit_returns)

lemma randint_returns: "a \<le> b \<Longrightarrow> \<exists>y g'. randint a b g = Inr (y, g')"
  by (auto simp: randint_def intro!: returns_intros)

lemma lookup_returns: "k \<in> fst ` set d \<Longrightarrow> \<exists>y g'. lookup d k g = Inr (y, g')"
  by (cases "map_of d k") (auto simp: lookup_def ret_def map_of_eq_None_iff)

lemma assign_plan_returns: "\<exists>y g'. assign_plan c g = Inr (y, g')"
  by (auto simp: assign_plan_def intro!: np_choice_returns)

lemma pick_tx_type_returns: "\<exists>y g'. pick_tx_type i g = Inr (y, g')"
  by (auto simp: pick_tx_type_def intro!: returns_intros random_unit_returns np_choice_returns)

lemma pick_category_returns: "\<exists>y g'. pick_category tx g = Inr (y, g')"
  by (auto simp: pick_category_def intro!: returns_intros np_choice_returns)

lemma base_amount_returns: "\<exists>y g'. base_amount c tx p g = Inr (y, g')"
  by (auto simp: base_amount_def intro!: returns_intros uniform_returns)

lemma seasonality_returns: "\<exists>y g'. seasonality t tx a g = Inr (y, g')"
  by (auto simp: seasonality_def intro!: returns_intros uniform_returns)

lemma uuid4_hex12_returns: "\<exists>y g'. uuid4_hex12 g = Inr (y, g')"
  by (simp add: uuid4_hex12_def uuid_next_def bnd_def ret_def)

lemma add_time_returns: "\<exists>y g'. add_time d g = Inr (y, g')"
  unfolding add_time_def
  by (intro returns_intros randint_returns) simp_all

lemma build_type_map_returns:
  "\<exists>tm g'. build_type_map d cids g = Inr (tm, g') \<and> fst ` set tm = fst ` set d \<union> set cids"
proof (induction cids arbitrary: d g)
  case Nil
  then show ?case by simp
next
  case (Cons cid cids)
  from np_choice_returns [of customer_types g] obtain c g1 where
    c: "np_choice customer_types g = Inr (c, g1)"
    by (auto simp: customer_types_def)
  from Cons.IH [of "AList.update cid c d" g1] c show ?case
    by (auto simp: dom_update)
qed

lemma build_plan_map_returns:
  "\<exists>pm g'. build_plan_map d items g = Inr (pm, g')
     \<and> fst ` set pm = fst ` set d \<union> fst ` set items"
proof (induction items arbitrary: d g)
  case Nil
  then show ?case by simp
next
  case (Cons item items)
  obtain cid ctype where item: "item = (cid, ctype)" by (cases item)
  from assign_plan_returns [of ctype g] obtain p g1 where
    p: "assign_plan ctype g = Inr (p, g1)"
    by auto
  from Cons.IH [of "AList.update cid p d" g1] p item show ?case
    by (auto simp: dom_update)
qed

lemma draw_dates_returns: "0 < r \<Longrightarrow> \<exists>ds g'. draw_dates s r k g = Inr (ds, g')"
proof (induction k arbitrary: g)
  case 0
  then show ?case by simp
next
  case (Suc k)
  from np_randint_returns [OF Suc.prems, of g] obtain d g1 where
    "np_randint r g = Inr (d, g1)" by auto
  with Suc.IH [OF Suc.prems, of g1] show ?case by auto
qed

lemma add_times_returns: "\<exists>ts g'. add_times ds g = Inr (ts, g')"
proof (induction ds arbitrary: g)
  case Nil
  then show ?case by simp
next
  case (Cons d ds)
  from add_time_returns [of d g] obtain t g1 where "add_time d g = Inr (t, g1)" by auto
  with Cons.IH [of g1] show ?case by auto
qed

lemma gen_row_returns:
  assumes "cids \<noteq> []" "set cids \<subseteq> fst ` set tm" "set cids \<subseteq> fst ` set pm"
  shows "\<exists>r g'. gen_row cids tm pm i t g = Inr (r, g')"
proof -
  from np_choice_returns [OF assms(1), of g] obtain cid g1 where
    cid: "np_choice cids g = Inr (cid, g1)" by auto
  from np_choice_mem [OF cid] assms(2,3) have keys: "cid \<in> fst ` set tm" "cid \<in> fst ` set pm"
    by auto
  from lookup_returns [OF keys(1), of g1] obtain ctype g2 where
    ctype: "lookup tm cid g1 = Inr (ctype, g2)" by auto
  from lookup_returns [OF keys(2), of g2] obtain plan g3 where
    plan: "lookup pm cid g2 = Inr (plan, g3)" by auto
  have "\<exists>r g'. bnd (pick_tx_type i) (\<lambda>tx_type.
     bnd (pick_category tx_type) (\<lambda>cat.
     bnd (base_amount cat tx_type (plan_prices plan)) (\<lambda>amt.
     bnd (np_choice regions) (\<lambda>reg.
     bnd (np_choice payment_statuses) (\<lambda>status.
     bnd (seasonality t tx_type amt) (\<lambda>amt'.
     bnd uuid4_hex12 (\<lambda>hex.
     ret \<lparr>transaction_id = tx_prefix cat @ hex,
          timestamp = t,
          customer_id = cid,
          amount = round2 amt',
          transaction_type = tx_type,
          subscription_plan = plan,
          category = cat,
          region = reg,
          payment_status = status,
          customer_type = ctype\<rparr>))))))) g3 = Inr (r, g')"
    by (intro bnd_returns pick_tx_type_returns pick_category_returns base_amount_returns
        np_choice_returns seasonality_returns uuid4_hex12_returns ret_returns)
      (simp_all add: regions_def payment_statuses_def)
  with cid ctype plan show ?thesis
    by (simp add: gen_row_def bnd_def)
qed

lemma gen_rows_returns:
  assumes "cids \<noteq> []" "set cids \<subseteq> fst ` set tm" "set cids \<subseteq> fst ` set pm"
  shows "\<exists>rows g'. gen_rows cids tm pm i ts g = Inr (rows, g')"
proof (induction ts arbitrary: i g)
  case Nil
  then show ?case by simp
next
  case (Cons t ts)
  from gen_row_returns [OF assms, of i t g] obtain r g1 where
    "gen_row cids tm pm i t g = Inr (r, g1)" by auto
  with Cons.IH [of "Suc i" g1] show ?case by auto
qed

lemma retry_pass_returns:
  "\<forall>i\<in>set idxs. i < length df \<Longrightarrow> \<exists>df' g'. retry_pass e idxs df g = Inr (df', g')"
proof (induction idxs arbitrary: df g)
  case Nil
  then show ?case by simp
next
  case (Cons idx idxs)
  from random_unit_returns [of g] obtain u g1 where u: "random_unit g = Inr (u, g1)"
    by auto
  from randint_returns [of 1 7 g1] obtain d g2 where d: "randint 1 7 g1 = Inr (d, g2)"
    by auto
  from Cons.prems have b: "\<forall>i\<in>set idxs. i < length df" "idx < length df"
    and b': "\<forall>i\<in>set idxs. i < length (df @ [retry_of (df ! idx) (add_days (timestamp (df ! idx)) d)])"
    by auto
  from Cons.IH [OF b(1), of g1] Cons.IH [OF b(1), of g2] Cons.IH [OF b', of g2] u d b(2)
  show ?case
    by (simp add: Let_def)
qed

lemma sample_returns: "n \<le> length xs \<Longrightarrow> \<exists>ys g'. sample n xs g = Inr (ys, g')"
proof (induction n arbitrary: xs g)
  case 0
  then show ?case by simp
next
  case (Suc n)
  then have ne: "xs \<noteq> []" by auto
  obtain k g1 where k: "sample_next g = Inr (k, g1)"
    by (simp add: sample_next_def)
  let ?i = "k mod length xs"
  from ne have "?i < length xs" by simp
  with Suc.prems have "n \<le> length (take ?i xs @ drop (Suc ?i) xs)"
    by simp
  from Suc.IH [OF this, of g1] ne k show ?case
    by (auto simp: Let_def)
qed

lemma customer_ids_nonempty: "10 \<le> n \<Longrightarrow> customer_ids_of n \<noteq> []"
  by (simp add: customer_ids_of_def num_customers_of_def)

lemma generate_returns:
  assumes "10 \<le> n" "s < e"
  shows "\<exists>df g'. generate_synthetic_saas_data n s e g = Inr (df, g')"
proof -
  let ?cids = "customer_ids_of n"
  from build_type_map_returns [of "[]" ?cids g] obtain tm g1 where
    tm: "build_type_map [] ?cids g = Inr (tm, g1)" and tm_keys: "fst ` set tm = set ?cids"
    by auto
  from build_plan_map_returns [of "[]" tm g1] obtain pm g2 where
    pm: "build_plan_map [] tm g1 = Inr (pm, g2)" and pm_keys: "fst ` set pm = fst ` set tm"
    by auto
  from draw_dates_returns [of "e - s" s "nat n" g2] assms(2) obtain dates g3 where
    dates: "draw_dates s (e - s) (nat n) g2 = Inr (dates, g3)"
    by auto
  from add_times_returns [of "sort dates" g3] obtain ts g4 where
    ts: "add_times (sort dates) g3 = Inr (ts, g4)"
    by auto
  from gen_rows_returns [OF customer_ids_nonempty [OF assms(1)], of tm pm 0 ts g4]
    tm_keys pm_keys
  obtain data g5 where data: "gen_rows ?cids tm pm 0 ts g4 = Inr (data, g5)"
    by auto
  have "length data = nat n"
    using length_draw_dates [OF dates] length_add_times [OF ts] length_gen_rows [OF data]
    by simp
  with assms(1) have ne: "data \<noteq> []" by auto
  have "\<forall>i\<in>set (failed_indices data). i < length data"
    by (simp add: failed_indices_props)
  from retry_pass_returns [OF this, of e g5] obtain df1 g6 where
    retry: "retry_pass e (failed_indices data) data g5 = Inr (df1, g6)"
    by auto
  have fin: "\<exists>df g'. (if int (length (sort_values df1)) > n
              then bnd (sample (nat n) (sort_values df1)) (\<lambda>s. ret (sort_values s))
              else ret (sort_values df1)) g6 = Inr (df, g')"
  proof (cases "int (length (sort_values df1)) > n")
    case True
    then have "nat n \<le> length (sort_values df1)" by simp
    from sample_returns [OF this, of g6] True show ?thesis
      by (auto simp: bnd_def ret_def)
  next
    case False
    then show ?thesis by (simp add: ret_def)
  qed
  with tm pm dates ts data ne retry show ?thesis
    by (simp add: generate_synthetic_saas_data_def Let_def bnd_def)
qed



lemma np_next_const: "np_next (const_rng a b c d) = Inr (a, const_rng a b c d)"
  by (simp add: np_next_def const_rng_def)

lemma py_next_const: "py_next (const_rng a b c d) = Inr (b, const_rng a b c d)"
  by (simp add: py_next_def const_rng_def)

lemma uuid_next_const: "uuid_next (const_rng a b c d) = Inr (c, const_rng a b c d)"
  by (simp add: uuid_next_def const_rng_def)

lemma sample_next_const: "sample_next (const_rng a b c d) = Inr (d, const_rng a b c d)"
  by (simp add: sample_next_def const_rng_def)

lemma np_choice_const:
  "xs \<noteq> [] \<Longrightarrow>
     np_choice xs (const_rng a b c d) = Inr (xs ! (a mod length xs), const_rng a b c d)"
  by (simp add: np_choice_def bnd_def ret_def np_next_const)

lemma np_randint_const:
  "0 < high \<Longrightarrow>
     np_randint high (const_rng a b c d) = Inr (int a mod high, const_rng a b c d)"
  by (simp add: np_randint_def bnd_def ret_def np_next_const)

lemma random_unit_const:
  "random_unit (const_rng a b c d)
     = Inr (of_int (int b mod 2 ^ 53) / 2 ^ 53, const_rng a b c d)"
  by (simp add: random_unit_def bnd_def ret_def py_next_const)

lemma uniform_const:
  "uniform lo hi (const_rng a 0 c d) = Inr (lo, const_rng a 0 c d)"
  by (simp add: uniform_def bnd_def ret_def random_unit_const)

lemma randint_const:
  "lo \<le> hi \<Longrightarrow> randint lo hi (const_rng a 0 c d) = Inr (lo, const_rng a 0 c d)"
  by (simp add: randint_def bnd_def ret_def py_next_const)

lemma uuid4_hex12_const:
  "uuid4_hex12 (const_rng a b c d) = Inr (hex_digits 12 c, const_rng a b c d)"
  by (simp add: uuid4_hex12_def bnd_def ret_def uuid_next_const)

lemma draw_dates_const:
  "0 < r \<Longrightarrow>
     draw_dates s r k (const_rng a b c d)
       = Inr (replicate k (s + int a mod r), const_rng a b c d)"
  by (induction k) (simp_all add: np_randint_const)

lemma add_time_const:
  "add_time date (const_rng a 0 c d) = Inr (midnight date + 28800, const_rng a 0 c d)"
  by (simp add: add_time_def bnd_def ret_def randint_const)

lemma add_times_const:
  "add_times dates (const_rng a 0 c d)
     = Inr (map (\<lambda>date. midnight date + 28800) dates, const_rng a 0 c d)"
  by (induction dates) (simp_all add: add_time_const)

lemma sort_replicate: "sort (replicate k (x::int)) = replicate k x"
  by (induction k) (simp_all add: insort_is_Cons)

lemma gen_rows_const:
  assumes "\<And>j. gen_row cids tm pm (Suc j) t G = Inr (row, G)"
  shows "gen_rows cids tm pm (Suc i) (replicate k t) G = Inr (replicate k row, G)"
  by (induction k arbitrary: i) (simp_all add: assms)

lemma retry_pass_const:
  assumes "prefix base df"
    and "\<forall>i\<in>set idxs. i < length base
           \<and> add_days (timestamp (base ! i)) 1 \<le> midnight e"
  shows "retry_pass e idxs df (const_rng a 0 c d)
     = Inr (df @ map (\<lambda>i. retry_of (base ! i) (add_days (timestamp (base ! i)) 1)) idxs,
            const_rng a 0 c d)"
  using assms
proof (induction idxs arbitrary: df)
  case Nil
  then show ?case by simp
next
  case (Cons idx idxs)
  from Cons.prems have idx: "idx < length base" "idx < length df" "df ! idx = base ! idx"
    and ok: "add_days (timestamp (base ! idx)) 1 \<le> midnight e"
    and rest: "\<forall>i\<in>set idxs. i < length base
           \<and> add_days (timestamp (base ! i)) 1 \<le> midnight e"
    by (auto simp: prefix_def nth_append)
  have pre: "prefix base (df @ [retry_of (base ! idx) (add_days (timestamp (base ! idx)) 1)])"
    using Cons.prems(1) by simp
  show ?case
    using idx ok Cons.IH [OF pre rest]
    by (simp add: random_unit_const randint_const Let_def)
qed

lemma sample_const:
  "d + n \<le> length xs \<Longrightarrow>
     sample n xs (const_rng a b c d) = Inr (take n (drop d xs), const_rng a b c d)"
proof (induction n arbitrary: xs)
  case 0
  then show ?case by simp
next
  case (Suc n)
  then have d: "d < length xs" and ne: "xs \<noteq> []" by auto
  have rest: "d + n \<le> length (take d xs @ drop (Suc d) xs)"
    using Suc.prems by simp
  have "drop d (take d xs @ drop (Suc d) xs) = drop (Suc d) xs"
    using d by simp
  with Suc.IH [OF rest] d ne show ?case
    by (simp add: sample_next_const Let_def take_Suc_conv_app_nth Cons_nth_drop_Suc [symmetric]
        del: drop_Suc_Cons)
qed

lemma failed_indices_all:
  "\<forall>r\<in>set df. payment_status r = Failed \<Longrightarrow> failed_indices df = [0 ..< length df]"
  by (simp add: failed_indices_def)

lemma failed_indices_none:
  "\<forall>r\<in>set df. payment_status r \<noteq> Failed \<Longrightarrow> failed_indices df = []"
  by (simp add: failed_indices_def)

lemma retry_all_const:
  assumes "\<forall>r\<in>set df. payment_status r = Failed \<and> add_days (timestamp r) 1 \<le> midnight e"
  shows "retry_pass e (failed_indices df) df (const_rng a 0 c d)
     = Inr (df @ map (\<lambda>r. retry_of r (add_days (timestamp r) 1)) df, const_rng a 0 c d)"
proof -
  have idxs: "failed_indices df = [0 ..< length df]"
    using assms by (simp add: failed_indices_all)
  have "\<forall>i\<in>set [0 ..< length df]. i < length df
           \<and> add_days (timestamp (df ! i)) 1 \<le> midnight e"
    using assms by simp
  from retry_pass_const [OF prefix_order.order_refl this, of a c d]
  have "retry_pass e [0 ..< length df] df (const_rng a 0 c d)
     = Inr (df @ map (\<lambda>i. retry_of (df ! i) (add_days (timestamp (df ! i)) 1)) [0 ..< length df],
            const_rng a 0 c d)" .
  moreover have "map (\<lambda>i. retry_of (df ! i) (add_days (timestamp (df ! i)) 1)) [0 ..< length df]
      = map (\<lambda>r. retry_of r (add_days (timestamp r) 1)) (map (\<lambda>i. df ! i) [0 ..< length df])"
    by (simp add: comp_def)
  ultimately show ?thesis
    unfolding idxs by (simp only: map_nth)
qed

lemma generate_const_rows:
  assumes G: "G = const_rng a 0 c d"
    and n: "n = int (Suc k)"
    and tm: "build_type_map [] (customer_ids_of n) G = Inr (tm, G)"
    and pm: "build_plan_map [] tm G = Inr (pm, G)"
    and range: "s < e"
    and T: "T = midnight (s + int a mod (e - s)) + 28800"
    and r0: "gen_row (customer_ids_of n) tm pm 0 T G = Inr (row0, G)"
    and rS: "\<And>j. gen_row (customer_ids_of n) tm pm (Suc j) T G = Inr (row1, G)"
  shows "generate_synthetic_saas_data n s e G =
     bnd (retry_pass e (failed_indices (row0 # replicate k row1)) (row0 # replicate k row1))
       (\<lambda>df. if int (length (sort_values df)) > n
              then bnd (sample (nat n) (sort_values df)) (\<lambda>s. ret (sort_values s))
              else ret (sort_values df)) G"
proof -
  have natn: "nat n = Suc k" using n by simp
  have dates: "draw_dates s (e - s) (nat n) G = Inr (replicate (Suc k) (s + int a mod (e - s)), G)"
    unfolding G natn using range by (intro draw_dates_const) simp
  have ts: "add_times (sort (replicate (Suc k) (s + int a mod (e - s)))) G
      = Inr (T # replicate k T, G)"
    unfolding sort_replicate G by (simp add: add_times_const T)
  have rows: "gen_rows (customer_ids_of n) tm pm 0 (T # replicate k T) G
      = Inr (row0 # replicate k row1, G)"
    using r0 gen_rows_const [of "customer_ids_of n" tm pm T G row1 0 k, OF rS]
    by simp
  show ?thesis
    by (simp only: generate_synthetic_saas_data_def Let_def bnd_def tm pm dates ts rows
        sum.case prod.case list.distinct if_False)
qed

lemma generate_const_no_failure:
  assumes G: "G = const_rng a 0 c d"
    and n: "n = int (Suc k)"
    and tm: "build_type_map [] (customer_ids_of n) G = Inr (tm, G)"
    and pm: "build_plan_map [] tm G = Inr (pm, G)"
    and range: "s < e"
    and T: "T = midnight (s + int a mod (e - s)) + 28800"
    and r0: "gen_row (customer_ids_of n) tm pm 0 T G = Inr (row0, G)"
    and rS: "\<And>j. gen_row (customer_ids_of n) tm pm (Suc j) T G = Inr (row1, G)"
    and status: "payment_status row0 \<noteq> Failed" "payment_status row1 \<noteq> Failed"
    and time: "timestamp row0 = T" "timestamp row1 = T"
  shows "generate_synthetic_saas_data n s e G = Inr (row0 # replicate k row1, G)"
proof -
  let ?data = "row0 # replicate k row1"
  have "failed_indices ?data = []"
    using status by (intro failed_indices_none) auto
  moreover have "sorted (map timestamp ?data)"
    using time by simp
  then have "sort_values ?data = ?data"
    unfolding sort_values_def by (rule sort_key_id_if_sorted)
  moreover have "\<not> int (length ?data) > n"
    using n by simp
  ultimately show ?thesis
    unfolding generate_const_rows [OF G n tm pm range T r0 rS]
    by (simp only: bnd_def ret_def retry_pass.simps sum.case prod.case if_False)
qed

lemma generate_const_all_failed:
  assumes G: "G = const_rng a 0 c d"
    and n: "n = int (Suc k)"
    and tm: "build_type_map [] (customer_ids_of n) G = Inr (tm, G)"
    and pm: "build_plan_map [] tm G = Inr (pm, G)"
    and range: "s < e"
    and T: "T = midnight (s + int a mod (e - s)) + 28800"
    and r0: "gen_row (customer_ids_of n) tm pm 0 T G = Inr (row0, G)"
    and rS: "\<And>j. gen_row (customer_ids_of n) tm pm (Suc j) T G = Inr (row1, G)"
    and status: "payment_status row0 = Failed" "payment_status row1 = Failed"
    and time: "timestamp row0 = T" "timestamp row1 = T"
    and retry: "add_days T 1 \<le> midnight e"
    and d: "d \<le> Suc k"
  shows "generate_synthetic_saas_data n s e G =
     Inr (take (Suc k) (drop d
            ((row0 # replicate k row1)
             @ (retry_of row0 (add_days T 1) # replicate k (retry_of row1 (add_days T 1))))), G)"
proof -
  let ?data = "row0 # replicate k row1"
  let ?retries = "retry_of row0 (add_days T 1) # replicate k (retry_of row1 (add_days T 1))"
  have "\<forall>r\<in>set ?data. payment_status r = Failed \<and> add_days (timestamp r) 1 \<le> midnight e"
    using status time retry by auto
  from retry_all_const [OF this, of a c d]
  have pass: "retry_pass e (failed_indices ?data) ?data G = Inr (?data @ ?retries, G)"
    unfolding G by (simp add: time)
  have "sorted (map timestamp (?data @ ?retries))"
    using time by (auto simp: sorted_append retry_of_fields add_days_def seconds_per_day_def)
  then have sorted_all: "sort_values (?data @ ?retries) = ?data @ ?retries"
    unfolding sort_values_def by (rule sort_key_id_if_sorted)
  have smp: "sample (Suc k) (?data @ ?retries) G
      = Inr (take (Suc k) (drop d (?data @ ?retries)), G)"
    unfolding G using d by (intro sample_const) simp
  have "sorted (map timestamp (take (Suc k) (drop d (?data @ ?retries))))"
    using \<open>sorted (map timestamp (?data @ ?retries))\<close>
    by (simp only: take_map [symmetric] drop_map [symmetric] sorted_wrt_take sorted_wrt_drop)
  then have sorted_smp: "sort_values (take (Suc k) (drop d (?data @ ?retries)))
      = take (Suc k) (drop d (?data @ ?retries))"
    unfolding sort_values_def by (rule sort_key_id_if_sorted)
  have len: "int (length (?data @ ?retries)) > n" and natn: "nat n = Suc k"
    using n by simp_all
  show ?thesis
    unfolding generate_const_rows [OF G n tm pm range T r0 rS]
    by (simp only: bnd_def ret_def pass sorted_all smp sorted_smp len natn
        sum.case prod.case if_True)
qed

lemma customer_ids_of_10: "customer_ids_of 10 = [''CUST_000001'']"
  by code_simp

lemma hex_digits_12_0: "hex_digits 12 0 = ''000000000000''"
  by code_simp

lemma new_year_2023: "day_of 63808243200 = 1" "month_of 63808243200 = 1"
  by code_simp+

lemma round2_0: "round2 0 = 0"
  by (simp add: round2_def round_half_even_def)

lemmas gen_row_eval =
  gen_row_def bnd_def ret_def raise_def np_choice_const lookup_def pick_tx_type_def
  pick_category_def base_amount_def plan_prices_def regions_def payment_statuses_def
  seasonality_def uuid4_hex12_const tx_prefix_def random_unit_const uniform_const

lemma zero_run_maps:
  "build_type_map [] (customer_ids_of 10) (const_rng 0 0 0 0)
     = Inr ([(''CUST_000001'', B2C)], const_rng 0 0 0 0)"
  "build_plan_map [] [(''CUST_000001'', B2C)] (const_rng 0 0 0 0)
     = Inr ([(''CUST_000001'', Free)], const_rng 0 0 0 0)"
  by (simp_all add: customer_ids_of_10 np_choice_const customer_types_def assign_plan_def)

lemma zero_run_first_row:
  "gen_row (customer_ids_of 10) [(''CUST_000001'', B2C)] [(''CUST_000001'', Free)] 0
      63808243200 (const_rng 0 0 0 0)
     = Inr (free_subscription_row, const_rng 0 0 0 0)"
  by (simp add: customer_ids_of_10 gen_row_eval new_year_2023 hex_digits_12_0 round2_0
      free_subscription_row_def)

lemma zero_run_later_rows:
  "gen_row (customer_ids_of 10) [(''CUST_000001'', B2C)] [(''CUST_000001'', Free)] (Suc j)
      63808243200 (const_rng 0 0 0 0)
     = Inr (free_refund_row, const_rng 0 0 0 0)"
  by (simp add: customer_ids_of_10 gen_row_eval new_year_2023 hex_digits_12_0 round2_0
      free_refund_row_def free_subscription_row_def)

lemma zero_run:
  "generate_synthetic_saas_data 10 default_start_date default_end_date (const_rng 0 0 0 0)
     = Inr (free_subscription_row # replicate 9 free_refund_row, const_rng 0 0 0 0)"
proof (rule generate_const_no_failure [OF refl _ zero_run_maps _ _ zero_run_first_row
      zero_run_later_rows])
  show "(10::int) = int (Suc 9)" by simp
  show "default_start_date < default_end_date"
    by (simp add: default_start_date_def default_end_date_def)
  show "63808243200 = midnight (default_start_date + int 0 mod (default_end_date - default_start_date)) + 28800"
    by (simp add: midnight_def seconds_per_day_def default_start_date_def default_end_date_def)
qed (simp_all add: free_refund_row_def free_subscription_row_def)

lemma early_january_2023:
  "day_of 63808416000 = 3" "month_of 63808416000 = 1"
  "day_of 63808502400 = 4" "month_of 63808502400 = 1"
  by code_simp+

lemma round2_values:
  "round2 (4999 / 100) = 4999 / 100" "round2 10 = 10"
  "round2 (49999 / 100) = 49999 / 100" "round2 (- 20) = - 20"
  by code_simp+

lemma two_element_choices:
  "[Pro, Enterprise] ! (2 mod Suc (Suc 0)) = Pro"
  "[Enterprise, Custom] ! (3 mod Suc (Suc 0)) = Custom"
  by code_simp+

lemma failed_run_maps:
  "build_type_map [] (customer_ids_of 10) (const_rng 2 0 0 5)
     = Inr ([(''CUST_000001'', Mid_Market)], const_rng 2 0 0 5)"
  "build_plan_map [] [(''CUST_000001'', Mid_Market)] (const_rng 2 0 0 5)
     = Inr ([(''CUST_000001'', Pro)], const_rng 2 0 0 5)"
  by (simp_all add: customer_ids_of_10 np_choice_const customer_types_def assign_plan_def
      two_element_choices)

lemma failed_run_first_row:
  "gen_row (customer_ids_of 10) [(''CUST_000001'', Mid_Market)] [(''CUST_000001'', Pro)] 0
      63808416000 (const_rng 2 0 0 5)
     = Inr (failed_subscription_row, const_rng 2 0 0 5)"
  by (simp add: customer_ids_of_10 gen_row_eval early_january_2023 hex_digits_12_0
      round2_values failed_subscription_row_def)

lemma failed_run_later_rows:
  "gen_row (customer_ids_of 10) [(''CUST_000001'', Mid_Market)] [(''CUST_000001'', Pro)] (Suc j)
      63808416000 (const_rng 2 0 0 5)
     = Inr (failed_upgrade_row, const_rng 2 0 0 5)"
  by (simp add: customer_ids_of_10 gen_row_eval early_january_2023 hex_digits_12_0
      round2_values failed_upgrade_row_def failed_subscription_row_def)

lemma failed_run:
  "generate_synthetic_saas_data 10 default_start_date default_end_date (const_rng 2 0 0 5)
     = Inr (replicate 5 failed_upgrade_row
            @ retry_of failed_subscription_row 63808502400
            # replicate 4 (retry_of failed_upgrade_row 63808502400), const_rng 2 0 0 5)"
proof -
  have "generate_synthetic_saas_data 10 default_start_date default_end_date (const_rng 2 0 0 5)
     = Inr (take (Suc 9) (drop 5
            ((failed_subscription_row # replicate 9 failed_upgrade_row)
             @ (retry_of failed_subscription_row (add_days 63808416000 1)
                # replicate 9 (retry_of failed_upgrade_row (add_days 63808416000 1))))),
            const_rng 2 0 0 5)"
  proof (rule generate_const_all_failed [OF refl _ failed_run_maps _ _ failed_run_first_row
        failed_run_later_rows])
    show "(10::int) = int (Suc 9)" by simp
    show "default_start_date < default_end_date"
      by (simp add: default_start_date_def default_end_date_def)
    show "63808416000 = midnight (default_start_date + int 2 mod (default_end_date - default_start_date)) + 28800"
      by (simp add: midnight_def seconds_per_day_def default_start_date_def default_end_date_def)
    show "add_days 63808416000 1 \<le> midnight default_end_date"
      by (simp add: add_days_def midnight_def seconds_per_day_def default_end_date_def)
  qed (simp_all add: failed_upgrade_row_def failed_subscription_row_def)
  moreover have "add_days 63808416000 1 = 63808502400"
    by (simp add: add_days_def seconds_per_day_def)
  ultimately show ?thesis
    by (simp add: eval_nat_numeral)
qed

lemma downgrade_run_maps:
  "build_type_map [] (customer_ids_of 10) (const_rng 3 0 0 0)
     = Inr ([(''CUST_000001'', Enterprise_Customer)], const_rng 3 0 0 0)"
  "build_plan_map [] [(''CUST_000001'', Enterprise_Customer)] (const_rng 3 0 0 0)
     = Inr ([(''CUST_000001'', Custom)], const_rng 3 0 0 0)"
  by (simp_all add: customer_ids_of_10 np_choice_const customer_types_def assign_plan_def
      two_element_choices)

lemma downgrade_run_first_row:
  "gen_row (customer_ids_of 10) [(''CUST_000001'', Enterprise_Customer)]
      [(''CUST_000001'', Custom)] 0 63808502400 (const_rng 3 0 0 0)
     = Inr (downgrade_subscription_row, const_rng 3 0 0 0)"
  by (simp add: customer_ids_of_10 gen_row_eval early_january_2023 hex_digits_12_0
      round2_values downgrade_subscription_row_def)

lemma downgrade_run_later_rows:
  "gen_row (customer_ids_of 10) [(''CUST_000001'', Enterprise_Customer)]
      [(''CUST_000001'', Custom)] (Suc j) 63808502400 (const_rng 3 0 0 0)
     = Inr (downgrade_row, const_rng 3 0 0 0)"
  by (simp add: customer_ids_of_10 gen_row_eval early_january_2023 hex_digits_12_0
      round2_values downgrade_row_def downgrade_subscription_row_def)

lemma downgrade_run:
  "generate_synthetic_saas_data 10 default_start_date default_end_date (const_rng 3 0 0 0)
     = Inr (downgrade_subscription_row # replicate 9 downgrade_row, const_rng 3 0 0 0)"
proof (rule generate_const_no_failure [OF refl _ downgrade_run_maps _ _ downgrade_run_first_row
      downgrade_run_later_rows])
  show "(10::int) = int (Suc 9)" by simp
  show "default_start_date < default_end_date"
    by (simp add: default_start_date_def default_end_date_def)
  show "63808502400 = midnight (default_start_date + int 3 mod (default_end_date - default_start_date)) + 28800"
    by (simp add: midnight_def seconds_per_day_def default_start_date_def default_end_date_def)
qed (simp_all add: downgrade_row_def downgrade_subscription_row_def)

text \<open>
  C1 at a failing input. Ten rows over the default date range, with every numpy and
  \<open>random\<close> draw at its lowest outcome: the one customer is \<open>B2C\<close> on the \<open>Free\<close>
  plan, and rows 1 to 9 are refunds whose amount \<open>-base_price * uniform(0.1, 1.0)\<close>
  is 0, not negative.
\<close>

theorem free_plan_refund_amount_zero:
  "generate_synthetic_saas_data 10 default_start_date default_end_date (const_rng 0 0 0 0)
     = Inr (free_subscription_row # replicate 9 free_refund_row, const_rng 0 0 0 0)
   \<and> transaction_type free_refund_row = Refund
   \<and> subscription_plan free_refund_row = Free
   \<and> amount free_refund_row = 0"
  using zero_run by (simp add: free_refund_row_def free_subscription_row_def)

text \<open>
  C2 on a run with retries and downsampling: an original row and a retry row of the
  same customer.
\<close>

theorem customer_attributes_functional_witness:
  "generate_synthetic_saas_data 10 default_start_date default_end_date (const_rng 2 0 0 5)
     = Inr (replicate 5 failed_upgrade_row
            @ retry_of failed_subscription_row 63808502400
            # replicate 4 (retry_of failed_upgrade_row 63808502400), const_rng 2 0 0 5)
   \<and> customer_id failed_upgrade_row = customer_id (retry_of failed_subscription_row 63808502400)
   \<and> customer_type failed_upgrade_row = customer_type (retry_of failed_subscription_row 63808502400)
   \<and> subscription_plan failed_upgrade_row
       = subscription_plan (retry_of failed_subscription_row 63808502400)"
  using failed_run
    customer_attributes_functional [OF failed_run, of failed_upgrade_row
      "retry_of failed_subscription_row 63808502400"]
  by (simp add: retry_of_fields failed_upgrade_row_def failed_subscription_row_def)



text \<open>C5 on the downsampled run.\<close>

theorem timestamps_non_decreasing_witness:
  "generate_synthetic_saas_data 10 default_start_date default_end_date (const_rng 2 0 0 5)
     = Inr (replicate 5 failed_upgrade_row
            @ retry_of failed_subscription_row 63808502400
            # replicate 4 (retry_of failed_upgrade_row 63808502400), const_rng 2 0 0 5)
   \<and> sorted (map timestamp (replicate 5 failed_upgrade_row
            @ retry_of failed_subscription_row 63808502400
            # replicate 4 (retry_of failed_upgrade_row 63808502400)))
   \<and> timestamp failed_upgrade_row \<le> timestamp (retry_of failed_subscription_row 63808502400)"
  using failed_run timestamps_non_decreasing [OF failed_run]
  by (simp add: retry_of_fields failed_upgrade_row_def failed_subscription_row_def sorted_append)

text \<open>C9 on a run whose rows 1 to 9 are downgrades, booked as customer support cost.\<close>

theorem expense_amount_negative_witness:
  "generate_synthetic_saas_data 10 default_start_date default_end_date (const_rng 3 0 0 0)
     = Inr (downgrade_subscription_row # replicate 9 downgrade_row, const_rng 3 0 0 0)
   \<and> category downgrade_row = Customer_Support
   \<and> amount downgrade_row < 0"
  using downgrade_run expense_amount_negative [OF downgrade_run, of downgrade_row]
  by (simp add: downgrade_row_def downgrade_subscription_row_def)

text \<open>C10 on the downsampled run, at a retry row.\<close>

theorem timestamp_in_range_witness:
  "generate_synthetic_saas_data 10 default_start_date default_end_date (const_rng 2 0 0 5)
     = Inr (replicate 5 failed_upgrade_row
            @ retry_of failed_subscription_row 63808502400
            # replicate 4 (retry_of failed_upgrade_row 63808502400), const_rng 2 0 0 5)
   \<and> midnight default_start_date \<le> timestamp (retry_of failed_subscription_row 63808502400)
   \<and> timestamp (retry_of failed_subscription_row 63808502400) \<le> midnight default_end_date"
proof -
  have "retry_of failed_subscription_row 63808502400
      \<in> set (replicate 5 failed_upgrade_row
            @ retry_of failed_subscription_row 63808502400
            # replicate 4 (retry_of failed_upgrade_row 63808502400))"
    by simp
  from timestamp_in_range [OF failed_run this] failed_run show ?thesis
    by blast
qed

lemma single_failed_retry:
  "retry_pass default_end_date (failed_indices [failed_subscription_row])
      [failed_subscription_row] (const_rng 2 0 0 5)
     = Inr ([failed_subscription_row, retry_of failed_subscription_row 63808502400],
            const_rng 2 0 0 5)"
proof -
  have "\<forall>r\<in>set [failed_subscription_row].
      payment_status r = Failed \<and> add_days (timestamp r) 1 \<le> midnight default_end_date"
    by (simp add: failed_subscription_row_def add_days_def midnight_def seconds_per_day_def
        default_end_date_def)
  from retry_all_const [OF this, of 2 0 5] show ?thesis
    by (simp add: failed_subscription_row_def add_days_def seconds_per_day_def)
qed

text \<open>C4 on a frame of one failed row, retried one day later.\<close>

theorem retry_records_witness:
  "retry_pass default_end_date (failed_indices [failed_subscription_row])
      [failed_subscription_row] (const_rng 2 0 0 5)
     = Inr ([failed_subscription_row, retry_of failed_subscription_row 63808502400],
            const_rng 2 0 0 5)
   \<and> (\<exists>retries. [failed_subscription_row, retry_of failed_subscription_row 63808502400]
          = [failed_subscription_row] @ retries
        \<and> (\<forall>r\<in>set retries. \<exists>f\<in>set [failed_subscription_row]. \<exists>d.
                 payment_status f = Failed
                 \<and> 1 \<le> d \<and> d \<le> 7
                 \<and> timestamp r = timestamp f + d * 86400
                 \<and> timestamp r \<le> default_end_date * 86400
                 \<and> payment_status r = Completed
                 \<and> transaction_id r = ''RETRY_'' @ drop 4 (transaction_id f)
                 \<and> r = f\<lparr>timestamp := timestamp r, payment_status := Completed,
                          transaction_id := transaction_id r\<rparr>))"
  using single_failed_retry retry_records [OF single_failed_retry]
  by simp

lemma first_ten_hex:
  "map (hex_digits 12) [0, 1, 2, 3, 4, 5, 6, 7, 8, 9]
     = [''000000000000'', ''000000000001'', ''000000000002'', ''000000000003'',
        ''000000000004'', ''000000000005'', ''000000000006'', ''000000000007'',
        ''000000000008'', ''000000000009'']"
  by code_simp

lemma ten_uuid_prefixes_distinct:
  "distinct (map (\<lambda>j. hex_digits 12 (uuid_src counting_uuid_rng j)) [0 ..< nat 10])"
proof -
  have "[0 ..< nat 10] = [0, 1, 2, 3, 4, 5, 6, 7, 8, 9]"
    by (simp add: upt_conv_Cons)
  moreover have "(\<lambda>j. hex_digits 12 (uuid_src counting_uuid_rng j)) = hex_digits 12"
    by (simp add: counting_uuid_rng_def)
  ultimately show ?thesis
    by (simp only: first_ten_hex) simp
qed

text \<open>C6 on a run whose UUID prefixes are 0, 1, 2, ...: all different.\<close>

theorem transaction_ids_prefixed_and_unique_witness:
  "\<exists>df g'. generate_synthetic_saas_data 10 default_start_date default_end_date counting_uuid_rng
       = Inr (df, g')
     \<and> distinct (map (\<lambda>j. hex_digits 12 (uuid_src counting_uuid_rng j)) [0 ..< nat 10])
     \<and> distinct (map transaction_id df)
     \<and> (\<forall>r\<in>set df.
               (category r = Revenue \<and> take 4 (transaction_id r) = ''REV_'')
               \<or> (category r \<noteq> Revenue \<and> take 4 (transaction_id r) = ''EXP_'')
               \<or> take 6 (transaction_id r) = ''RETRY_'')"
proof -
  have "\<exists>df g'. generate_synthetic_saas_data 10 default_start_date default_end_date
      counting_uuid_rng = Inr (df, g')"
    by (rule generate_returns) (simp_all add: default_start_date_def default_end_date_def)
  then obtain df g' where run:
    "generate_synthetic_saas_data 10 default_start_date default_end_date counting_uuid_rng
       = Inr (df, g')"
    by blast
  from transaction_ids_prefixed_and_unique [OF run] ten_uuid_prefixes_distinct run
  show ?thesis by blast
qed

text \<open>
  C6 as stated fails when two UUIDs share their first twelve digits: with a UUID
  source that repeats itself, the first two rows of the returned frame carry the same
  transaction id.
\<close>

theorem repeated_uuid_prefix_counterexample:
  "generate_synthetic_saas_data 10 default_start_date default_end_date (const_rng 0 0 0 0)
     = Inr (free_subscription_row # replicate 9 free_refund_row, const_rng 0 0 0 0)
   \<and> transaction_id free_subscription_row = transaction_id free_refund_row
   \<and> \<not> distinct (map transaction_id (free_subscription_row # replicate 9 free_refund_row))"
  using zero_run by (simp add: free_refund_row_def free_subscription_row_def)

end
